theory Spec2Isabelle
  imports Complex_Main "HOL-Library.Product_Lexorder"
begin

section \<open>Data model: the tabular dataset\<close>

text \<open>
  The three jobs (\<^verbatim>\<open>clean_data.py\<close>, \<^verbatim>\<open>create_features.py\<close>, \<^verbatim>\<open>generate_eda.py\<close>) work on
  a pandas DataFrame. The frame is modelled column-wise, as pandas stores it: an ordered
  list of named columns, every column carrying its dtype.

  \<^item> \<open>Numeric\<close> stands for the dtypes \<^verbatim>\<open>float64\<close> and \<^verbatim>\<open>int64\<close>; a cell is \<open>Some v\<close> or
    \<open>None\<close> (NaN). Floating-point numbers are idealised as reals: rounding, infinities and
    the difference between 3 and 3.0 are outside the model.
  \<^item> \<open>Object\<close> is the dtype \<^verbatim>\<open>object\<close> that \<^verbatim>\<open>read_csv\<close> gives a column holding text.
    \<open>Txt s\<close> is text that is not a number; \<open>Val v\<close> is a number or text that reads as one
    (the two print alike in a CSV file).
  \<^item> \<open>Datetime\<close> is \<^verbatim>\<open>datetime64[ns]\<close> at day resolution, a cell being a calendar date
    (year, month, day) or \<open>None\<close> (NaT). Dates are ordered lexicographically.
  \<^item> \<open>Period\<close> is the monthly period dtype (year, month) of \<^verbatim>\<open>dt.to_period('M')\<close>.
\<close>

type_synonym date = "int \<times> int \<times> int"

datatype ocell = Txt string | Val real

datatype column =
    Numeric "real option list"
  | Object "ocell option list"
  | Datetime "date option list"
  | Period "(int \<times> int) option list"

type_synonym dataframe = "(string \<times> column) list"

datatype error =
    KeyError string
  | TypeError
  | DataError
  | AttributeError

fun col_len :: "column \<Rightarrow> nat" where
  "col_len (Numeric xs) = length xs"
| "col_len (Object xs) = length xs"
| "col_len (Datetime xs) = length xs"
| "col_len (Period xs) = length xs"

text \<open>\<^verbatim>\<open>df.shape[0]\<close>: the number of rows. All columns of a frame have this length.\<close>

fun nrows :: "dataframe \<Rightarrow> nat" where
  "nrows [] = 0"
| "nrows ((n, c) # df) = col_len c"

definition columns :: "dataframe \<Rightarrow> string list" where
  "columns df = map fst df"

text \<open>
  What \<^verbatim>\<open>read_csv\<close> guarantees of the frame it returns: the column names are distinct and
  all columns have the same length.
\<close>

definition all_len :: "nat \<Rightarrow> dataframe \<Rightarrow> bool" where
  "all_len k df = list_all (\<lambda>nc. col_len (snd nc) = k) df"

definition wf_frame :: "dataframe \<Rightarrow> bool" where
  "wf_frame df = (distinct (columns df) \<and> all_len (nrows df) df)"

section \<open>The pandas operations the jobs call\<close>

text \<open>\<^verbatim>\<open>df[name]\<close> is \<open>map_of df name\<close>; a missing name raises KeyError.\<close>

definition get_col :: "dataframe \<Rightarrow> string \<Rightarrow> error + column" where
  "get_col df name = (case map_of df name of None \<Rightarrow> Inl (KeyError name) | Some c \<Rightarrow> Inr c)"

text \<open>\<^verbatim>\<open>df[name] = c\<close>: an existing column is replaced in place, a new one is appended.\<close>

definition set_col :: "string \<Rightarrow> column \<Rightarrow> dataframe \<Rightarrow> dataframe" where
  "set_col name c df =
     (if name \<in> set (columns df)
      then map (\<lambda>nc. if fst nc = name then (name, c) else nc) df
      else df @ [(name, c)])"

text \<open>\<^verbatim>\<open>df.drop(columns=names, errors='ignore')\<close>.\<close>

definition drop_columns :: "string list \<Rightarrow> dataframe \<Rightarrow> dataframe" where
  "drop_columns names df = filter (\<lambda>nc. fst nc \<notin> set names) df"

text \<open>\<^verbatim>\<open>df[[c for c in order if c in df.columns]]\<close>.\<close>

definition select_present :: "string list \<Rightarrow> dataframe \<Rightarrow> dataframe" where
  "select_present order df =
     List.map_filter (\<lambda>c. map_option (Pair c) (map_of df c)) order"

subsection \<open>Dates\<close>

definition is_leap :: "int \<Rightarrow> bool" where
  "is_leap y = (y mod 4 = 0 \<and> (y mod 100 \<noteq> 0 \<or> y mod 400 = 0))"

definition days_in_month :: "int \<Rightarrow> int \<Rightarrow> int" where
  "days_in_month y m =
     (if m = 2 then (if is_leap y then 29 else 28)
      else if m = 4 \<or> m = 6 \<or> m = 9 \<or> m = 11 then 30 else 31)"

text \<open>
  A calendar date that a nanosecond timestamp can hold (1677-09-22 to 2262-04-11).
\<close>

definition valid_date :: "date \<Rightarrow> bool" where
  "valid_date dt =
     (case dt of (y, m, d) \<Rightarrow>
        1 \<le> m \<and> m \<le> 12 \<and> 1 \<le> d \<and> d \<le> days_in_month y m \<and>
        (1677, 9, 22) \<le> dt \<and> dt \<le> (2262, 4, 11))"

text \<open>\<^verbatim>\<open>to_numeric(values, errors='coerce')\<close>: what is not a number becomes NaN.\<close>

fun to_numeric :: "column \<Rightarrow> real option list" where
  "to_numeric (Numeric xs) = xs"
| "to_numeric (Object xs) =
     map (\<lambda>c. case c of Some (Val v) \<Rightarrow> Some v | _ \<Rightarrow> None) xs"
| "to_numeric (Datetime xs) = map (\<lambda>c. None) xs"
| "to_numeric (Period xs) = map (\<lambda>c. None) xs"

text \<open>
  One row of \<^verbatim>\<open>pd.to_datetime(df[['YEAR', 'MONTH', 'DAY']], errors='coerce')\<close>: the date
  when the three cells are whole numbers that form a valid date, NaT otherwise.
\<close>

definition is_whole :: "real \<Rightarrow> bool" where
  "is_whole v = (of_int \<lfloor>v\<rfloor> = v)"

definition assemble_date :: "real option \<Rightarrow> real option \<Rightarrow> real option \<Rightarrow> date option" where
  "assemble_date y m d =
     (case (y, m, d) of
        (Some yv, Some mv, Some dv) \<Rightarrow>
          (if is_whole yv \<and> is_whole mv \<and> is_whole dv \<and> valid_date (\<lfloor>yv\<rfloor>, \<lfloor>mv\<rfloor>, \<lfloor>dv\<rfloor>)
           then Some (\<lfloor>yv\<rfloor>, \<lfloor>mv\<rfloor>, \<lfloor>dv\<rfloor>) else None)
      | _ \<Rightarrow> None)"

definition to_datetime :: "dataframe \<Rightarrow> error + date option list" where
  "to_datetime df =
     (case get_col df ''YEAR'' of Inl e \<Rightarrow> Inl e | Inr ys \<Rightarrow>
       (case get_col df ''MONTH'' of Inl e \<Rightarrow> Inl e | Inr ms \<Rightarrow>
         (case get_col df ''DAY'' of Inl e \<Rightarrow> Inl e | Inr ds \<Rightarrow>
            Inr (map (\<lambda>(y, m, d). assemble_date y m d)
                   (zip (to_numeric ys) (zip (to_numeric ms) (to_numeric ds)))))))"

subsection \<open>Sorting\<close>

text \<open>
  \<^verbatim>\<open>df.sort_values('DATE').reset_index(drop=True)\<close>. pandas computes an indexer over the key
  column (the rows with a key in ascending order, then the rows whose key is missing, in
  their original order) and takes every column along it. Rows with equal keys keep their
  original order here (pandas' \<^verbatim>\<open>kind='stable'\<close>; its default \<^verbatim>\<open>quicksort\<close> promises no
  order among equal keys).
\<close>

definition na_last_le :: "('a::linorder) option \<Rightarrow> 'a option \<Rightarrow> bool" where
  "na_last_le a b =
     (case b of None \<Rightarrow> True | Some y \<Rightarrow> (case a of None \<Rightarrow> False | Some x \<Rightarrow> x \<le> y))"

definition nargsort :: "('a::linorder) option list \<Rightarrow> nat list" where
  "nargsort ks =
     sort_key (\<lambda>i. the (ks ! i)) (filter (\<lambda>i. ks ! i \<noteq> None) [0..<length ks])
     @ filter (\<lambda>i. ks ! i = None) [0..<length ks]"

fun take_rows :: "nat list \<Rightarrow> column \<Rightarrow> column" where
  "take_rows idx (Numeric xs) = Numeric (map ((!) xs) idx)"
| "take_rows idx (Object xs) = Object (map ((!) xs) idx)"
| "take_rows idx (Datetime xs) = Datetime (map ((!) xs) idx)"
| "take_rows idx (Period xs) = Period (map ((!) xs) idx)"

fun sort_indexer :: "column \<Rightarrow> error + nat list" where
  "sort_indexer (Numeric ks) = Inr (nargsort ks)"
| "sort_indexer (Datetime ks) = Inr (nargsort ks)"
| "sort_indexer (Period ks) = Inr (nargsort ks)"
| "sort_indexer (Object ks) = Inl TypeError"

definition sort_values :: "string \<Rightarrow> dataframe \<Rightarrow> error + dataframe" where
  "sort_values key df =
     (case get_col df key of Inl e \<Rightarrow> Inl e | Inr k \<Rightarrow>
       (case sort_indexer k of Inl e \<Rightarrow> Inl e | Inr idx \<Rightarrow>
          Inr (map (\<lambda>nc. (fst nc, take_rows idx (snd nc))) df)))"

subsection \<open>Filling missing values\<close>

text \<open>\<^verbatim>\<open>ffill\<close>: a missing cell takes the nearest preceding value, if there is one.\<close>

fun ffill_from :: "'a option \<Rightarrow> 'a option list \<Rightarrow> 'a option list" where
  "ffill_from prev [] = []"
| "ffill_from prev (None # xs) = prev # ffill_from prev xs"
| "ffill_from prev (Some v # xs) = Some v # ffill_from (Some v) xs"

definition ffill :: "'a option list \<Rightarrow> 'a option list" where
  "ffill xs = ffill_from None xs"

text \<open>\<^verbatim>\<open>bfill\<close>: a missing cell takes the nearest following value, if there is one.\<close>

definition bfill :: "'a option list \<Rightarrow> 'a option list" where
  "bfill xs = rev (ffill (rev xs))"

definition fillna :: "'a \<Rightarrow> 'a option list \<Rightarrow> 'a option list" where
  "fillna v xs = map (\<lambda>x. case x of None \<Rightarrow> Some v | Some y \<Rightarrow> Some y) xs"

fun ffill_col :: "column \<Rightarrow> column" where
  "ffill_col (Numeric xs) = Numeric (ffill xs)"
| "ffill_col (Object xs) = Object (ffill xs)"
| "ffill_col (Datetime xs) = Datetime (ffill xs)"
| "ffill_col (Period xs) = Period (ffill xs)"

fun bfill_col :: "column \<Rightarrow> column" where
  "bfill_col (Numeric xs) = Numeric (bfill xs)"
| "bfill_col (Object xs) = Object (bfill xs)"
| "bfill_col (Datetime xs) = Datetime (bfill xs)"
| "bfill_col (Period xs) = Period (bfill xs)"

text \<open>
  \<^verbatim>\<open>fillna(0)\<close>. A number cannot fill a datetime or period column; the cleaner never has
  one under the names it fills.
\<close>

fun fillna0_col :: "column \<Rightarrow> error + column" where
  "fillna0_col (Numeric xs) = Inr (Numeric (fillna 0 xs))"
| "fillna0_col (Object xs) = Inr (Object (fillna (Val 0) xs))"
| "fillna0_col (Datetime xs) = Inl TypeError"
| "fillna0_col (Period xs) = Inl TypeError"

subsection \<open>Numeric columns\<close>

fun is_numeric :: "column \<Rightarrow> bool" where
  "is_numeric (Numeric xs) = True"
| "is_numeric c = False"

text \<open>\<^verbatim>\<open>df.select_dtypes(include=['float64', 'int64']).columns\<close>.\<close>

definition select_dtypes :: "dataframe \<Rightarrow> string list" where
  "select_dtypes df = map fst (filter (\<lambda>nc. is_numeric (snd nc)) df)"

definition is_negative :: "real option \<Rightarrow> bool" where
  "is_negative x = (case x of None \<Rightarrow> False | Some v \<Rightarrow> v < 0)"

section \<open>The cleaner (\<^verbatim>\<open>clean_data\<close>)\<close>

definition temp_humidity_cols :: "string list" where
  "temp_humidity_cols = [''TMAX'', ''TMIN'', ''Ave. Temp'', ''RH'']"

definition col_order :: "string list" where
  "col_order = [''DATE'', ''YEAR'', ''MONTH'', ''DAY'', ''RAINFALL'', ''TMAX'', ''TMIN'',
                ''Ave. Temp'', ''RH'', ''DENGUE CASES'']"

text \<open>Step 3, the loop over the temperature and humidity columns.\<close>

fun fill_temp_humidity :: "string list \<Rightarrow> dataframe \<Rightarrow> dataframe" where
  "fill_temp_humidity [] df = df"
| "fill_temp_humidity (col # cols) df =
     fill_temp_humidity cols
       (case map_of df col of
          None \<Rightarrow> df
        | Some c \<Rightarrow> set_col col (bfill_col (ffill_col c)) df)"

definition fill_rainfall :: "dataframe \<Rightarrow> error + dataframe" where
  "fill_rainfall df =
     (case map_of df ''RAINFALL'' of
        None \<Rightarrow> Inr df
      | Some c \<Rightarrow>
          (case fillna0_col c of Inl e \<Rightarrow> Inl e
           | Inr c' \<Rightarrow> Inr (set_col ''RAINFALL'' c' df)))"

definition fill_dengue :: "dataframe \<Rightarrow> error + dataframe" where
  "fill_dengue df =
     (case map_of df ''DENGUE CASES'' of
        None \<Rightarrow> Inr df
      | Some c \<Rightarrow>
          (case fillna0_col (ffill_col c) of Inl e \<Rightarrow> Inl e
           | Inr c' \<Rightarrow> Inr (set_col ''DENGUE CASES'' c' df)))"

text \<open>
  Step 4, the loop over the numeric columns:
  \<^verbatim>\<open>df.loc[df[col] < 0, col] = 0\<close> when the column has a negative value.
\<close>

definition clamp_column :: "real option list \<Rightarrow> real option list" where
  "clamp_column xs = map (\<lambda>x. if is_negative x then Some 0 else x) xs"

fun remove_negatives :: "string list \<Rightarrow> dataframe \<Rightarrow> dataframe" where
  "remove_negatives [] df = df"
| "remove_negatives (col # cols) df =
     remove_negatives cols
       (if col \<notin> set [''YEAR'', ''MONTH'', ''DAY'']
        then (case map_of df col of
                Some (Numeric xs) \<Rightarrow>
                  (let negative_count = length (filter is_negative xs)
                   in if negative_count > 0
                      then set_col col (Numeric (clamp_column xs)) df
                      else df)
              | _ \<Rightarrow> df)
        else df)"

text \<open>Steps 1 and 2: drop the wind columns, derive DATE, sort by it.\<close>

definition date_and_sort :: "dataframe \<Rightarrow> error + dataframe" where
  "date_and_sort raw =
     (let df = drop_columns [''WIND_SPEED'', ''WIND_DIRECTION''] raw in
      case to_datetime df of
        Inl e \<Rightarrow> Inl e
      | Inr dates \<Rightarrow> sort_values ''DATE'' (set_col ''DATE'' (Datetime dates) df))"

text \<open>Step 3: the three fills, in the order of the source.\<close>

definition handle_missing :: "dataframe \<Rightarrow> error + dataframe" where
  "handle_missing df =
     (case fill_rainfall (fill_temp_humidity temp_humidity_cols df) of
        Inl e \<Rightarrow> Inl e
      | Inr df' \<Rightarrow> fill_dengue df')"

text \<open>
  The transformation between download and upload: from the frame read from the raw CSV
  to the frame written as the cleaned CSV (the job returns its row count). Steps 4 and 5
  are the last line.
\<close>

definition clean_data :: "dataframe \<Rightarrow> error + dataframe" where
  "clean_data raw =
     (case date_and_sort raw of
        Inl e \<Rightarrow> Inl e
      | Inr df2 \<Rightarrow>
          (case handle_missing df2 of
             Inl e \<Rightarrow> Inl e
           | Inr df3 \<Rightarrow>
               Inr (select_present col_order (remove_negatives (select_dtypes df3) df3))))"

section \<open>The feature builder (\<^verbatim>\<open>create_lag_features\<close>)\<close>

definition ebind :: "error + 'a \<Rightarrow> ('a \<Rightarrow> error + 'b) \<Rightarrow> error + 'b" where
  "ebind r f = (case r of Inl e \<Rightarrow> Inl e | Inr x \<Rightarrow> f x)"

definition lag_periods :: "nat list" where
  "lag_periods = [7, 14, 21]"

definition weather_vars :: "string list" where
  "weather_vars = [''RAINFALL'', ''TMAX'', ''TMIN'', ''Ave. Temp'', ''RH'']"

definition rolling_windows :: "nat list" where
  "rolling_windows = [7, 14]"

text \<open>The decimal digits of a number, as an f-string prints it.\<close>

fun string_of_nat :: "nat \<Rightarrow> string" where
  "string_of_nat n =
     (if n < 10 then [''0123456789'' ! n]
      else string_of_nat (n div 10) @ [''0123456789'' ! (n mod 10)])"

declare string_of_nat.simps [simp del]

subsection \<open>Lag columns\<close>

text \<open>\<^verbatim>\<open>Series.shift(n)\<close>: row i takes the value of row i - n; the first n rows are missing.\<close>

definition shift :: "nat \<Rightarrow> 'a option list \<Rightarrow> 'a option list" where
  "shift n xs = replicate (min n (length xs)) None @ take (length xs - n) xs"

fun shift_col :: "nat \<Rightarrow> column \<Rightarrow> column" where
  "shift_col n (Numeric xs) = Numeric (shift n xs)"
| "shift_col n (Object xs) = Object (shift n xs)"
| "shift_col n (Datetime xs) = Datetime (shift n xs)"
| "shift_col n (Period xs) = Period (shift n xs)"

definition lag_name :: "string \<Rightarrow> nat \<Rightarrow> string" where
  "lag_name prefix lag = prefix @ ''_LAG'' @ string_of_nat lag"

text \<open>
  The inner loop \<^verbatim>\<open>for lag in lag_periods: df[f"{prefix}_LAG{lag}"] = df[var].shift(lag)\<close>.
  It runs only when \<open>var\<close> is a column.
\<close>

fun lag_loop :: "string \<Rightarrow> string \<Rightarrow> nat list \<Rightarrow> dataframe \<Rightarrow> dataframe" where
  "lag_loop var prefix [] df = df"
| "lag_loop var prefix (lag # lags) df =
     lag_loop var prefix lags
       (case map_of df var of
          None \<Rightarrow> df
        | Some c \<Rightarrow> set_col (lag_name prefix lag) (shift_col lag c) df)"

fun weather_lags :: "string list \<Rightarrow> dataframe \<Rightarrow> dataframe" where
  "weather_lags [] df = df"
| "weather_lags (var # vars) df =
     weather_lags vars
       (if var \<in> set (columns df) then lag_loop var var lag_periods df else df)"

definition dengue_lags :: "dataframe \<Rightarrow> dataframe" where
  "dengue_lags df =
     (if ''DENGUE CASES'' \<in> set (columns df)
      then lag_loop ''DENGUE CASES'' ''DENGUE_CASES'' lag_periods df else df)"

subsection \<open>Rolling statistics\<close>

text \<open>
  \<^verbatim>\<open>Series.rolling(window=w, min_periods=p)\<close>: the window of row i is rows
  max(0, i - w + 1) to i; its observations are the cells that are not missing; the
  statistic is missing when there are fewer than p of them.
\<close>

definition window_rows :: "nat \<Rightarrow> 'a list \<Rightarrow> nat \<Rightarrow> 'a list" where
  "window_rows w xs i = take (Suc i - (Suc i - w)) (drop (Suc i - w) xs)"

definition window_obs :: "nat \<Rightarrow> real option list \<Rightarrow> nat \<Rightarrow> real list" where
  "window_obs w xs i = List.map_filter id (window_rows w xs i)"

definition mean :: "real list \<Rightarrow> real" where
  "mean obs = sum_list obs / real (length obs)"

definition rolling_mean :: "nat \<Rightarrow> nat \<Rightarrow> real option list \<Rightarrow> real option list" where
  "rolling_mean w min_periods xs =
     map (\<lambda>i. let obs = window_obs w xs i
               in if min_periods \<le> length obs \<and> 0 < length obs
                  then Some (mean obs) else None)
         [0..<length xs]"

text \<open>
  \<^verbatim>\<open>.std()\<close> is the sample standard deviation (one delta degree of freedom): missing
  unless the window has more than one observation.
\<close>

definition sample_std :: "real list \<Rightarrow> real" where
  "sample_std obs =
     sqrt (sum_list (map (\<lambda>x. (x - mean obs)\<^sup>2) obs) / real (length obs - 1))"

definition rolling_std :: "nat \<Rightarrow> nat \<Rightarrow> real option list \<Rightarrow> real option list" where
  "rolling_std w min_periods xs =
     map (\<lambda>i. let obs = window_obs w xs i
               in if min_periods \<le> length obs \<and> 1 < length obs
                  then Some (sample_std obs) else None)
         [0..<length xs]"

text \<open>Rolling over a column that holds no numbers raises (pandas' DataError).\<close>

fun rolling_mean_col :: "nat \<Rightarrow> column \<Rightarrow> error + column" where
  "rolling_mean_col w (Numeric xs) = Inr (Numeric (rolling_mean w 1 xs))"
| "rolling_mean_col w c = Inl DataError"

fun rolling_std_col :: "nat \<Rightarrow> column \<Rightarrow> error + column" where
  "rolling_std_col w (Numeric xs) = Inr (Numeric (rolling_std w 1 xs))"
| "rolling_std_col w c = Inl DataError"

definition roll_mean_name :: "string \<Rightarrow> nat \<Rightarrow> string" where
  "roll_mean_name prefix w = prefix @ ''_ROLL_MEAN_'' @ string_of_nat w @ ''D''"

definition roll_std_name :: "string \<Rightarrow> nat \<Rightarrow> string" where
  "roll_std_name prefix w = prefix @ ''_ROLL_STD_'' @ string_of_nat w @ ''D''"

text \<open>The inner loop over the windows of one weather variable: mean, then std.\<close>

fun roll_loop :: "string \<Rightarrow> nat list \<Rightarrow> dataframe \<Rightarrow> error + dataframe" where
  "roll_loop var [] df = Inr df"
| "roll_loop var (w # ws) df =
     ebind (get_col df var) (\<lambda>c.
     ebind (rolling_mean_col w c) (\<lambda>m.
     ebind (get_col (set_col (roll_mean_name var w) m df) var) (\<lambda>c'.
     ebind (rolling_std_col w c') (\<lambda>s.
       roll_loop var ws
         (set_col (roll_std_name var w) s (set_col (roll_mean_name var w) m df))))))"

fun weather_rolling :: "string list \<Rightarrow> dataframe \<Rightarrow> error + dataframe" where
  "weather_rolling [] df = Inr df"
| "weather_rolling (var # vars) df =
     (if var \<in> set (columns df)
      then ebind (roll_loop var rolling_windows df) (weather_rolling vars)
      else weather_rolling vars df)"

fun dengue_roll_loop :: "nat list \<Rightarrow> dataframe \<Rightarrow> error + dataframe" where
  "dengue_roll_loop [] df = Inr df"
| "dengue_roll_loop (w # ws) df =
     ebind (get_col df ''DENGUE CASES'') (\<lambda>c.
     ebind (rolling_mean_col w c) (\<lambda>m.
       dengue_roll_loop ws (set_col (roll_mean_name ''DENGUE_CASES'' w) m df)))"

definition dengue_rolling :: "dataframe \<Rightarrow> error + dataframe" where
  "dengue_rolling df =
     (if ''DENGUE CASES'' \<in> set (columns df)
      then dengue_roll_loop rolling_windows df else Inr df)"

subsection \<open>Interaction features\<close>

text \<open>Cell-wise arithmetic of two numeric columns; a missing operand gives a missing result.\<close>

definition cell_op :: "(real \<Rightarrow> real \<Rightarrow> real) \<Rightarrow> real option \<Rightarrow> real option \<Rightarrow> real option" where
  "cell_op f a b = (case (a, b) of (Some x, Some y) \<Rightarrow> Some (f x y) | _ \<Rightarrow> None)"

fun column_op :: "(real \<Rightarrow> real \<Rightarrow> real) \<Rightarrow> column \<Rightarrow> column \<Rightarrow> error + column" where
  "column_op f (Numeric xs) (Numeric ys) = Inr (Numeric (map2 (cell_op f) xs ys))"
| "column_op f c c' = Inl TypeError"

definition interaction ::
    "string \<Rightarrow> (real \<Rightarrow> real \<Rightarrow> real) \<Rightarrow> string \<Rightarrow> string \<Rightarrow> dataframe \<Rightarrow> error + dataframe" where
  "interaction name f a b df =
     (if a \<in> set (columns df) \<and> b \<in> set (columns df)
      then ebind (get_col df a) (\<lambda>x.
           ebind (get_col df b) (\<lambda>y.
           ebind (column_op f x y) (\<lambda>c. Inr (set_col name c df))))
      else Inr df)"

definition interactions :: "dataframe \<Rightarrow> error + dataframe" where
  "interactions df =
     ebind (interaction ''TEMP_RANGE'' (-) ''TMAX'' ''TMIN'' df) (\<lambda>df1.
     ebind (interaction ''RAIN_TEMP_INTERACTION'' (*) ''RAINFALL'' ''Ave. Temp'' df1) (\<lambda>df2.
       interaction ''HUMIDITY_TEMP_INTERACTION'' (*) ''RH'' ''Ave. Temp'' df2))"

subsection \<open>Calendar features\<close>

text \<open>
  The ISO week of a date, by the rule of Python's \<^verbatim>\<open>date.isocalendar\<close>: day 1 of the
  proleptic Gregorian calendar is Monday, 1 January of year 1; week 1 of a year is the
  week (Monday to Sunday) that holds its first Thursday.
\<close>

definition days_before_year :: "int \<Rightarrow> int" where
  "days_before_year y = (y - 1) * 365 + (y - 1) div 4 - (y - 1) div 100 + (y - 1) div 400"

definition days_before_month :: "int \<Rightarrow> int \<Rightarrow> int" where
  "days_before_month y m = sum_list (map (days_in_month y) [1..m - 1])"

definition ymd2ord :: "date \<Rightarrow> int" where
  "ymd2ord dt = (case dt of (y, m, d) \<Rightarrow> days_before_year y + days_before_month y m + d)"

definition isoweek1monday :: "int \<Rightarrow> int" where
  "isoweek1monday y =
     (let firstday = ymd2ord (y, 1, 1);
          firstweekday = (firstday + 6) mod 7;
          week1monday = firstday - firstweekday
      in if firstweekday > 3 then week1monday + 7 else week1monday)"

definition iso_week :: "date \<Rightarrow> int" where
  "iso_week dt =
     (case dt of (y, m, d) \<Rightarrow>
        (let today = ymd2ord dt;
             week = (today - isoweek1monday y) div 7
         in if week < 0 then (today - isoweek1monday (y - 1)) div 7 + 1
            else if week \<ge> 52 \<and> today \<ge> isoweek1monday (y + 1) then 1
            else week + 1))"

definition quarter :: "date \<Rightarrow> int" where
  "quarter dt = (case dt of (y, m, d) \<Rightarrow> (m - 1) div 3 + 1)"

text \<open>The \<^verbatim>\<open>.dt\<close> accessor exists on datetime columns only.\<close>

fun dt_field :: "(date \<Rightarrow> int) \<Rightarrow> column \<Rightarrow> error + column" where
  "dt_field f (Datetime ds) = Inr (Numeric (map (map_option (\<lambda>d. real_of_int (f d))) ds))"
| "dt_field f c = Inl AttributeError"

text \<open>
  \<^verbatim>\<open>df['MONTH'].isin([6, 7, 8, 9, 10]).astype(int)\<close>. The cells of an object column read
  from a CSV file are text, which is none of the five numbers.
\<close>

definition rainy_months :: "real list" where
  "rainy_months = [6, 7, 8, 9, 10]"

fun is_rainy_season :: "column \<Rightarrow> column" where
  "is_rainy_season (Numeric xs) =
     Numeric (map (\<lambda>x. Some (if x \<in> set (map Some rainy_months) then 1 else 0)) xs)"
| "is_rainy_season (Object xs) = Numeric (map (\<lambda>x. Some 0) xs)"
| "is_rainy_season (Datetime xs) = Numeric (map (\<lambda>x. Some 0) xs)"
| "is_rainy_season (Period xs) = Numeric (map (\<lambda>x. Some 0) xs)"

definition time_features :: "dataframe \<Rightarrow> error + dataframe" where
  "time_features df =
     ebind (get_col df ''DATE'') (\<lambda>d.
     ebind (dt_field iso_week d) (\<lambda>week.
     ebind (get_col (set_col ''WEEK_OF_YEAR'' week df) ''DATE'') (\<lambda>d'.
     ebind (dt_field quarter d') (\<lambda>q.
     ebind (get_col (set_col ''QUARTER'' q (set_col ''WEEK_OF_YEAR'' week df)) ''MONTH'') (\<lambda>m.
       Inr (set_col ''IS_RAINY_SEASON'' (is_rainy_season m)
              (set_col ''QUARTER'' q (set_col ''WEEK_OF_YEAR'' week df))))))))"

text \<open>
  The transformation between download and upload: from the frame read from the cleaned
  CSV (its DATE column parsed as dates) to the frame written as the feature CSV.
\<close>

definition create_lag_features :: "dataframe \<Rightarrow> error + dataframe" where
  "create_lag_features input =
     ebind (sort_values ''DATE'' input) (\<lambda>df.
     ebind (weather_rolling weather_vars (dengue_lags (weather_lags weather_vars df))) (\<lambda>df1.
     ebind (dengue_rolling df1) (\<lambda>df2.
     ebind (interactions df2) time_features)))"

section \<open>The report generator (\<^verbatim>\<open>generate_eda\<close>)\<close>

text \<open>Python's \<^verbatim>\<open>sub in s\<close> on strings.\<close>

fun starts_with :: "string \<Rightarrow> string \<Rightarrow> bool" where
  "starts_with s [] = True"
| "starts_with [] (c # sub) = False"
| "starts_with (a # s) (c # sub) = (a = c \<and> starts_with s sub)"

fun str_contains :: "string \<Rightarrow> string \<Rightarrow> bool" where
  "str_contains [] sub = (sub = [])"
| "str_contains (a # s) sub = (starts_with (a # s) sub \<or> str_contains s sub)"

definition calendar_cols :: "string list" where
  "calendar_cols = [''YEAR'', ''MONTH'', ''DAY'', ''WEEK_OF_YEAR'', ''QUARTER'']"

text \<open>Lines 56 and 57: the numeric columns, without the calendar columns.\<close>

definition numeric_cols :: "dataframe \<Rightarrow> string list" where
  "numeric_cols df = filter (\<lambda>col. col \<notin> set calendar_cols) (select_dtypes df)"

definition is_priority :: "string \<Rightarrow> bool" where
  "is_priority col = (str_contains col ''DENGUE'' \<or> \<not> str_contains col ''LAG'')"

text \<open>Lines 60 to 64: the columns of the correlation matrix \<^verbatim>\<open>df[numeric_cols].corr()\<close>.\<close>

definition heatmap_cols :: "dataframe \<Rightarrow> string list" where
  "heatmap_cols df =
     (if length (numeric_cols df) > 20
      then (let priority_cols = filter is_priority (numeric_cols df);
                other_cols = filter (\<lambda>col. col \<notin> set priority_cols) (numeric_cols df)
            in priority_cols @ take (nat (max 0 (20 - int (length priority_cols)))) other_cols)
      else numeric_cols df)"

text \<open>\<^verbatim>\<open>Series.mean()\<close> and the plots of its values need a column of numbers.\<close>

fun numeric_values :: "column \<Rightarrow> error + real option list" where
  "numeric_values (Numeric xs) = Inr xs"
| "numeric_values c = Inl TypeError"

text \<open>\<^verbatim>\<open>df['DATE'].dt.to_period('M')\<close>.\<close>

fun to_period :: "column \<Rightarrow> error + column" where
  "to_period (Datetime ds) = Inr (Period (map (map_option (\<lambda>(y, m, d). (y, m))) ds))"
| "to_period c = Inl AttributeError"

text \<open>
  The monthly aggregation: one row per month that occurs, in ascending order; sums and
  means skip missing cells, and the mean of no observation is missing.
\<close>

definition nansum :: "real option list \<Rightarrow> real" where
  "nansum xs = sum_list (List.map_filter id xs)"

definition nanmean :: "real option list \<Rightarrow> real option" where
  "nanmean xs =
     (let obs = List.map_filter id xs in if obs = [] then None else Some (mean obs))"

definition group_keys :: "(int \<times> int) option list \<Rightarrow> (int \<times> int) list" where
  "group_keys ps = sort (remdups (List.map_filter id ps))"

definition group_cells :: "(int \<times> int) option list \<Rightarrow> (int \<times> int) \<Rightarrow> 'a list \<Rightarrow> 'a list" where
  "group_cells ps k xs = map snd (filter (\<lambda>pv. fst pv = Some k) (zip ps xs))"

record monthly_row =
  year_month :: "int \<times> int"
  dengue_cases_sum :: real
  rainfall_sum :: real
  ave_temp_mean :: "real option"
  rh_mean :: "real option"

definition monthly_aggregation ::
    "(int \<times> int) option list \<Rightarrow> real option list \<Rightarrow> real option list \<Rightarrow>
     real option list \<Rightarrow> real option list \<Rightarrow> monthly_row list" where
  "monthly_aggregation ps dengue rain temp rh =
     map (\<lambda>k. \<lparr>year_month = k,
                dengue_cases_sum = nansum (group_cells ps k dengue),
                rainfall_sum = nansum (group_cells ps k rain),
                ave_temp_mean = nanmean (group_cells ps k temp),
                rh_mean = nanmean (group_cells ps k rh)\<rparr>)
         (group_keys ps)"

text \<open>
  What a run of the job leaves: its DataFrame \<^verbatim>\<open>df\<close> as it is when the job returns, the
  keys it has put into the output bucket (in order), the columns of the correlation
  heatmap, the table behind the monthly plot, and the returned number of plots.
\<close>

record report =
  frame :: dataframe
  uploads :: "string list"
  heatmap_columns :: "string list"
  monthly_agg :: "monthly_row list"
  num_plots :: nat

definition vars_to_plot :: "string list" where
  "vars_to_plot = [''DENGUE CASES'', ''RAINFALL'', ''Ave. Temp'', ''RH'', ''TMAX'', ''TMIN'']"

text \<open>Section 3, the time series plots: every plotted column must exist.\<close>

fun require_cols :: "string list \<Rightarrow> dataframe \<Rightarrow> error + unit" where
  "require_cols [] df = Inr ()"
| "require_cols (name # names) df = ebind (get_col df name) (\<lambda>c. require_cols names df)"

text \<open>Section 4, the loop of the distribution plots: histogram and mean of each variable.\<close>

fun distribution_plots :: "string list \<Rightarrow> dataframe \<Rightarrow> error + unit" where
  "distribution_plots [] df = Inr ()"
| "distribution_plots (var # vars) df =
     ebind (get_col df var) (\<lambda>c.
     ebind (numeric_values c) (\<lambda>xs. distribution_plots vars df))"

definition generate_eda :: "string \<Rightarrow> dataframe \<Rightarrow> error + report" where
  "generate_eda output_prefix df =
     ebind (require_cols [''DATE'', ''DENGUE CASES'', ''RAINFALL'', ''TMAX'', ''TMIN'',
                          ''Ave. Temp'', ''RH''] df) (\<lambda>u.
     ebind (distribution_plots vars_to_plot df) (\<lambda>u.
     ebind (get_col df ''DATE'') (\<lambda>date.
     ebind (to_period date) (\<lambda>ym.
     ebind (get_col (set_col ''YEAR_MONTH'' ym df) ''DENGUE CASES'') (\<lambda>c1.
     ebind (numeric_values c1) (\<lambda>dengue.
     ebind (get_col (set_col ''YEAR_MONTH'' ym df) ''RAINFALL'') (\<lambda>c2.
     ebind (numeric_values c2) (\<lambda>rain.
     ebind (get_col (set_col ''YEAR_MONTH'' ym df) ''Ave. Temp'') (\<lambda>c3.
     ebind (numeric_values c3) (\<lambda>temp.
     ebind (get_col (set_col ''YEAR_MONTH'' ym df) ''RH'') (\<lambda>c4.
     ebind (numeric_values c4) (\<lambda>rh.
       Inr \<lparr>frame = set_col ''YEAR_MONTH'' ym df,
            uploads = map ((@) output_prefix)
              [''summary_statistics.csv'', ''correlation_heatmap.png'',
               ''timeseries_plots.png'', ''distributions.png'',
               ''monthly_aggregations.png''],
            heatmap_columns = heatmap_cols df,
            monthly_agg =
              monthly_aggregation (case ym of Period ps \<Rightarrow> ps | _ \<Rightarrow> [])
                dengue rain temp rh,
            num_plots = 4\<rparr>))))))))))))"

section \<open>Notions used to state the properties\<close>

text \<open>A frame is sorted by DATE: the dates never decrease, and the rows without a date
  come last.\<close>

definition sorted_by_date :: "dataframe \<Rightarrow> bool" where
  "sorted_by_date df =
     (case map_of df ''DATE'' of
        Some (Datetime ds) \<Rightarrow> sorted_wrt na_last_le ds
      | _ \<Rightarrow> False)"

text \<open>\<^verbatim>\<open>df[col].isnull().sum()\<close>, the count the cleaner prints after each fill.\<close>

fun missing_count :: "column \<Rightarrow> nat" where
  "missing_count (Numeric xs) = length (filter (\<lambda>x. x = None) xs)"
| "missing_count (Object xs) = length (filter (\<lambda>x. x = None) xs)"
| "missing_count (Datetime xs) = length (filter (\<lambda>x. x = None) xs)"
| "missing_count (Period xs) = length (filter (\<lambda>x. x = None) xs)"

text \<open>What step 4 of the cleaner does to one column: only numeric columns change.\<close>

fun clamp_col :: "column \<Rightarrow> column" where
  "clamp_col (Numeric xs) = Numeric (clamp_column xs)"
| "clamp_col c = c"

text \<open>The nearest value at or before row i, if there is one.\<close>

definition nearest_preceding :: "'a option list \<Rightarrow> nat \<Rightarrow> 'a option" where
  "nearest_preceding xs i =
     (case filter (\<lambda>x. x \<noteq> None) (rev (take (Suc i) xs)) of [] \<Rightarrow> None | x # rest \<Rightarrow> x)"

text \<open>
  The arithmetic mean of a run of cells: their sum over their number. It is missing when
  a cell is missing (NaN absorbs in floating-point arithmetic) or there is no cell.
\<close>

definition arithmetic_mean :: "real option list \<Rightarrow> real option" where
  "arithmetic_mean cells =
     (if cells \<noteq> [] \<and> None \<notin> set cells
      then Some (sum_list (map the cells) / real (length cells)) else None)"

text \<open>
  The variables that get lag columns, each with the prefix of the names of its lag
  columns: the weather variables under their own name, the case counts under
  \<^verbatim>\<open>DENGUE_CASES\<close>.
\<close>

definition lag_sources :: "(string \<times> string) list" where
  "lag_sources = map (\<lambda>v. (v, v)) weather_vars @ [(''DENGUE CASES'', ''DENGUE_CASES'')]"

text \<open>The names of the columns each step of the feature builder assigns.\<close>

definition lag_cols :: "string \<Rightarrow> string list" where
  "lag_cols prefix = map (lag_name prefix) lag_periods"

definition roll_cols :: "string \<Rightarrow> string list" where
  "roll_cols var = concat (map (\<lambda>w. [roll_mean_name var w, roll_std_name var w]) rolling_windows)"

definition dengue_roll_cols :: "string list" where
  "dengue_roll_cols = map (roll_mean_name ''DENGUE_CASES'') rolling_windows"

definition feature_cols :: "string list" where
  "feature_cols =
     concat (map lag_cols weather_vars) @ lag_cols ''DENGUE_CASES''
     @ concat (map roll_cols weather_vars) @ dengue_roll_cols
     @ [''TEMP_RANGE'', ''RAIN_TEMP_INTERACTION'', ''HUMIDITY_TEMP_INTERACTION'']
     @ [''WEEK_OF_YEAR'', ''QUARTER'', ''IS_RAINY_SEASON'']"

text \<open>The columns of its input that the feature builder reads.\<close>

definition base_cols :: "string list" where
  "base_cols = weather_vars @ [''DENGUE CASES'', ''DATE'', ''MONTH'']"

section \<open>Concrete datasets\<close>

text \<open>
  A raw dataset of four days, out of order, with missing and negative values and a wind
  column, and the cleaned dataset the cleaner makes of it.
\<close>

definition raw_example :: dataframe where
  "raw_example =
     [(''YEAR'', Numeric [Some 2020, Some 2020, Some 2020, Some 2020]),
      (''MONTH'', Numeric [Some 1, Some 1, Some 1, Some 1]),
      (''DAY'', Numeric [Some 3, Some 1, Some 4, Some 2]),
      (''RAINFALL'', Numeric [None, Some 12, Some 0, Some (-1)]),
      (''TMAX'', Numeric [Some (-5), Some 30, Some 32, Some 28]),
      (''WIND_SPEED'', Numeric [Some 3, Some 2, Some 4, Some 1]),
      (''DENGUE CASES'', Numeric [Some 3, None, None, None])]"

definition cleaned_example :: dataframe where
  "cleaned_example =
     [(''DATE'', Datetime [Some (2020, 1, 1), Some (2020, 1, 2), Some (2020, 1, 3),
                           Some (2020, 1, 4)]),
      (''YEAR'', Numeric [Some 2020, Some 2020, Some 2020, Some 2020]),
      (''MONTH'', Numeric [Some 1, Some 1, Some 1, Some 1]),
      (''DAY'', Numeric [Some 1, Some 2, Some 3, Some 4]),
      (''RAINFALL'', Numeric [Some 12, Some 0, Some 0, Some 0]),
      (''TMAX'', Numeric [Some 30, Some 28, Some 0, Some 32]),
      (''DENGUE CASES'', Numeric [Some 0, Some 0, Some 3, Some 3])]"

text \<open>The two examples of the specification: a negative TMAX, and missing case counts.\<close>

definition tmax_example :: dataframe where
  "tmax_example =
     [(''YEAR'', Numeric [Some 2021, Some 2021, Some 2021, Some 2021]),
      (''MONTH'', Numeric [Some 6, Some 6, Some 6, Some 6]),
      (''DAY'', Numeric [Some 1, Some 2, Some 3, Some 4]),
      (''TMAX'', Numeric [Some 30, Some 28, Some (-5), Some 32])]"

definition tmax_cleaned :: dataframe where
  "tmax_cleaned =
     [(''DATE'', Datetime [Some (2021, 6, 1), Some (2021, 6, 2), Some (2021, 6, 3),
                           Some (2021, 6, 4)]),
      (''YEAR'', Numeric [Some 2021, Some 2021, Some 2021, Some 2021]),
      (''MONTH'', Numeric [Some 6, Some 6, Some 6, Some 6]),
      (''DAY'', Numeric [Some 1, Some 2, Some 3, Some 4]),
      (''TMAX'', Numeric [Some 30, Some 28, Some 0, Some 32])]"

definition dengue_example :: dataframe where
  "dengue_example =
     [(''YEAR'', Numeric [Some 2021, Some 2021, Some 2021, Some 2021, Some 2021]),
      (''MONTH'', Numeric [Some 6, Some 6, Some 6, Some 6, Some 6]),
      (''DAY'', Numeric [Some 1, Some 2, Some 3, Some 4, Some 5]),
      (''RAINFALL'', Numeric [Some 4, None, Some 2, None, None]),
      (''DENGUE CASES'', Numeric [None, None, Some 3, None, Some 5])]"

definition dengue_cleaned :: dataframe where
  "dengue_cleaned =
     [(''DATE'', Datetime [Some (2021, 6, 1), Some (2021, 6, 2), Some (2021, 6, 3),
                           Some (2021, 6, 4), Some (2021, 6, 5)]),
      (''YEAR'', Numeric [Some 2021, Some 2021, Some 2021, Some 2021, Some 2021]),
      (''MONTH'', Numeric [Some 6, Some 6, Some 6, Some 6, Some 6]),
      (''DAY'', Numeric [Some 1, Some 2, Some 3, Some 4, Some 5]),
      (''RAINFALL'', Numeric [Some 4, Some 0, Some 2, Some 0, Some 0]),
      (''DENGUE CASES'', Numeric [Some 0, Some 0, Some 3, Some 3, Some 5])]"

text \<open>The second example after steps 1 and 2 of the cleaner (DATE is a new, last column).\<close>

definition dengue_sorted :: dataframe where
  "dengue_sorted =
     [(''YEAR'', Numeric [Some 2021, Some 2021, Some 2021, Some 2021, Some 2021]),
      (''MONTH'', Numeric [Some 6, Some 6, Some 6, Some 6, Some 6]),
      (''DAY'', Numeric [Some 1, Some 2, Some 3, Some 4, Some 5]),
      (''RAINFALL'', Numeric [Some 4, None, Some 2, None, None]),
      (''DENGUE CASES'', Numeric [None, None, Some 3, None, Some 5]),
      (''DATE'', Datetime [Some (2021, 6, 1), Some (2021, 6, 2), Some (2021, 6, 3),
                           Some (2021, 6, 4), Some (2021, 6, 5)])]"

text \<open>
  The rainfall example of the specification: ten days of RAINFALL as the raw dataset, as
  the cleaned dataset, and the feature dataset the feature builder makes of it.
\<close>

definition rain_raw :: dataframe where
  "rain_raw =
     [(''YEAR'', Numeric [Some 2020, Some 2020, Some 2020, Some 2020, Some 2020, Some 2020,
         Some 2020, Some 2020, Some 2020, Some 2020]),
      (''MONTH'', Numeric [Some 1, Some 1, Some 1, Some 1, Some 1, Some 1, Some 1, Some 1,
         Some 1, Some 1]),
      (''DAY'', Numeric [Some 1, Some 2, Some 3, Some 4, Some 5, Some 6, Some 7, Some 8,
         Some 9, Some 10]),
      (''RAINFALL'', Numeric [Some 0, Some 5, Some 0, Some 0, Some 10, Some 0, Some 0, Some 0,
         Some 0, Some 20])]"

definition rain_example :: dataframe where
  "rain_example =
     [(''DATE'', Datetime [Some (2020, 1, 1), Some (2020, 1, 2), Some (2020, 1, 3),
         Some (2020, 1, 4), Some (2020, 1, 5), Some (2020, 1, 6), Some (2020, 1, 7),
         Some (2020, 1, 8), Some (2020, 1, 9), Some (2020, 1, 10)]),
      (''YEAR'', Numeric [Some 2020, Some 2020, Some 2020, Some 2020, Some 2020, Some 2020,
         Some 2020, Some 2020, Some 2020, Some 2020]),
      (''MONTH'', Numeric [Some 1, Some 1, Some 1, Some 1, Some 1, Some 1, Some 1, Some 1,
         Some 1, Some 1]),
      (''DAY'', Numeric [Some 1, Some 2, Some 3, Some 4, Some 5, Some 6, Some 7, Some 8,
         Some 9, Some 10]),
      (''RAINFALL'', Numeric [Some 0, Some 5, Some 0, Some 0, Some 10, Some 0, Some 0, Some 0,
         Some 0, Some 20])]"

definition rain_features :: dataframe where
  "rain_features = projr (create_lag_features rain_example)"

text \<open>
  A feature dataset of one row (1 June 2020) with the columns the feature builder writes
  for the canonical cleaned layout: first the ten cleaned columns and the eighteen lag
  columns (\<open>lag_layout\<close>), then the rolling, interaction and calendar columns. And the
  report generator's run on it.
\<close>

definition lag_layout :: dataframe where
  "lag_layout =
     [(''DATE'', Datetime [Some (2020, 6, 1)]),
      (''YEAR'', Numeric [Some 2020]),
      (''MONTH'', Numeric [Some 6]),
      (''DAY'', Numeric [Some 1]),
      (''RAINFALL'', Numeric [Some 12]),
      (''TMAX'', Numeric [Some 33]),
      (''TMIN'', Numeric [Some 25]),
      (''Ave. Temp'', Numeric [Some 29]),
      (''RH'', Numeric [Some 80]),
      (''DENGUE CASES'', Numeric [Some 3]),
      (''RAINFALL_LAG7'', Numeric [None]),
      (''RAINFALL_LAG14'', Numeric [None]),
      (''RAINFALL_LAG21'', Numeric [None]),
      (''TMAX_LAG7'', Numeric [None]),
      (''TMAX_LAG14'', Numeric [None]),
      (''TMAX_LAG21'', Numeric [None]),
      (''TMIN_LAG7'', Numeric [None]),
      (''TMIN_LAG14'', Numeric [None]),
      (''TMIN_LAG21'', Numeric [None]),
      (''Ave. Temp_LAG7'', Numeric [None]),
      (''Ave. Temp_LAG14'', Numeric [None]),
      (''Ave. Temp_LAG21'', Numeric [None]),
      (''RH_LAG7'', Numeric [None]),
      (''RH_LAG14'', Numeric [None]),
      (''RH_LAG21'', Numeric [None]),
      (''DENGUE_CASES_LAG7'', Numeric [None]),
      (''DENGUE_CASES_LAG14'', Numeric [None]),
      (''DENGUE_CASES_LAG21'', Numeric [None])]"

definition feature_layout :: dataframe where
  "feature_layout = lag_layout @
     [(''RAINFALL_ROLL_MEAN_7D'', Numeric [Some 12]),
      (''RAINFALL_ROLL_STD_7D'', Numeric [None]),
      (''RAINFALL_ROLL_MEAN_14D'', Numeric [Some 12]),
      (''RAINFALL_ROLL_STD_14D'', Numeric [None]),
      (''TMAX_ROLL_MEAN_7D'', Numeric [Some 33]),
      (''TMAX_ROLL_STD_7D'', Numeric [None]),
      (''TMAX_ROLL_MEAN_14D'', Numeric [Some 33]),
      (''TMAX_ROLL_STD_14D'', Numeric [None]),
      (''TMIN_ROLL_MEAN_7D'', Numeric [Some 25]),
      (''TMIN_ROLL_STD_7D'', Numeric [None]),
      (''TMIN_ROLL_MEAN_14D'', Numeric [Some 25]),
      (''TMIN_ROLL_STD_14D'', Numeric [None]),
      (''Ave. Temp_ROLL_MEAN_7D'', Numeric [Some 29]),
      (''Ave. Temp_ROLL_STD_7D'', Numeric [None]),
      (''Ave. Temp_ROLL_MEAN_14D'', Numeric [Some 29]),
      (''Ave. Temp_ROLL_STD_14D'', Numeric [None]),
      (''RH_ROLL_MEAN_7D'', Numeric [Some 80]),
      (''RH_ROLL_STD_7D'', Numeric [None]),
      (''RH_ROLL_MEAN_14D'', Numeric [Some 80]),
      (''RH_ROLL_STD_14D'', Numeric [None]),
      (''DENGUE_CASES_ROLL_MEAN_7D'', Numeric [Some 3]),
      (''DENGUE_CASES_ROLL_MEAN_14D'', Numeric [Some 3]),
      (''TEMP_RANGE'', Numeric [Some 8]),
      (''RAIN_TEMP_INTERACTION'', Numeric [Some 348]),
      (''HUMIDITY_TEMP_INTERACTION'', Numeric [Some 2320]),
      (''WEEK_OF_YEAR'', Numeric [Some 23]),
      (''QUARTER'', Numeric [Some 2]),
      (''IS_RAINY_SEASON'', Numeric [Some 1])]"

definition layout_report :: report where
  "layout_report = projr (generate_eda ''eda/'' feature_layout)"

section \<open>Frames: lookup, assignment, equality\<close>

lemma in_columns_iff: "n \<in> set (columns df) \<longleftrightarrow> map_of df n \<noteq> None"
  by (simp add: columns_def map_of_eq_None_iff)

lemma map_of_replace:
  "map_of (map (\<lambda>nc. if fst nc = n then (n, c) else nc) df) m =
     (if m = n then map_option (\<lambda>old. c) (map_of df n) else map_of df m)"
  by (induction df) auto

lemma map_of_set_col:
  "map_of (set_col n c df) m = (if m = n then Some c else map_of df m)"
proof (cases "n \<in> set (columns df)")
  case True
  then obtain old where "map_of df n = Some old"
    by (auto simp: in_columns_iff)
  with True show ?thesis
    by (simp add: set_col_def map_of_replace)
next
  case False
  then have "map_of df n = None"
    by (simp add: in_columns_iff)
  with False show ?thesis
    by (auto simp: set_col_def map_add_def split: option.splits)
qed

lemma columns_replace:
  "map fst (map (\<lambda>nc. if fst nc = n then (n, c) else nc) df) = map fst df"
  by (induction df) auto

lemma columns_set_col:
  "columns (set_col n c df) = (if n \<in> set (columns df) then columns df else columns df @ [n])"
  by (simp add: set_col_def columns_def columns_replace)

lemma all_len_set_col:
  "all_len k df \<Longrightarrow> col_len c = k \<Longrightarrow> all_len k (set_col n c df)"
  by (auto simp: all_len_def set_col_def list_all_iff)

lemma all_len_map_of: "all_len k df \<Longrightarrow> map_of df n = Some c \<Longrightarrow> col_len c = k"
  by (auto simp: all_len_def list_all_iff dest!: map_of_SomeD)

lemma nrows_all_len: "all_len k df \<Longrightarrow> df \<noteq> [] \<Longrightarrow> nrows df = k"
  by (cases df) (auto simp: all_len_def)

lemma wf_frame_all_len: "wf_frame df \<Longrightarrow> all_len (nrows df) df"
  by (simp add: wf_frame_def)


section \<open>Sorting by a key column\<close>

lemma length_nargsort: "length (nargsort ks) = length ks"
  using sum_length_filter_compl[of "\<lambda>i. ks ! i = None" "[0..<length ks]"]
  by (simp add: nargsort_def)

lemma set_nargsort: "set (nargsort ks) = {0..<length ks}"
  by (auto simp: nargsort_def)

lemma nargsort_bound: "i \<in> set (nargsort ks) \<Longrightarrow> i < length ks"
  by (simp add: set_nargsort)

lemma sorted_wrt_map_Some:
  "sorted_wrt na_last_le (map Some xs) = sorted xs"
  by (induction xs) (auto simp: na_last_le_def)

lemma nargsort_sorted: "sorted_wrt na_last_le (map ((!) ks) (nargsort ks))"
proof -
  let ?f = "\<lambda>i. the (ks ! i)"
  let ?S = "sort_key ?f (filter (\<lambda>i. ks ! i \<noteq> None) [0..<length ks])"
  let ?N = "filter (\<lambda>i. ks ! i = None) [0..<length ks]"
  have "map ((!) ks) ?S = map Some (map ?f ?S)"
    by (auto simp: comp_def)
  moreover have "sorted (map ?f ?S)"
    by (rule sorted_sort_key)
  ultimately have a: "sorted_wrt na_last_le (map ((!) ks) ?S)"
    by (simp only: sorted_wrt_map_Some)
  have b: "sorted_wrt na_last_le (map ((!) ks) ?N)"
    by (auto simp: sorted_wrt_map sorted_wrt_iff_nth_less na_last_le_def dest!: nth_mem)
  have c: "\<forall>x\<in>set (map ((!) ks) ?S). \<forall>y\<in>set (map ((!) ks) ?N). na_last_le x y"
    by (auto simp: na_last_le_def)
  show ?thesis
    unfolding nargsort_def map_append
    using a b c by (simp only: sorted_wrt_append simp_thms)
qed




lemma col_len_take_rows: "col_len (take_rows idx c) = length idx"
  by (cases c) auto


section \<open>The steps of the cleaner\<close>

subsection \<open>Lookup through the steps\<close>

lemma get_col_Inr: "get_col df n = Inr c \<longleftrightarrow> map_of df n = Some c"
  by (simp add: get_col_def split: option.splits)

lemma map_of_drop_columns:
  "map_of (drop_columns names df) n = (if n \<in> set names then None else map_of df n)"
  by (induction df) (auto simp: drop_columns_def)

lemma columns_drop_columns:
  "columns (drop_columns names df) = filter (\<lambda>n. n \<notin> set names) (columns df)"
  by (simp add: drop_columns_def columns_def filter_map comp_def)

lemma all_len_drop_columns: "all_len k df \<Longrightarrow> all_len k (drop_columns names df)"
  by (auto simp: all_len_def drop_columns_def list_all_iff)

lemma map_of_take_all:
  "map_of (map (\<lambda>nc. (fst nc, f (snd nc))) df) n = map_option f (map_of df n)"
  by (induction df) auto

lemma sort_values_Inr:
  assumes "sort_values key df = Inr out"
  obtains k idx where "map_of df key = Some k" "sort_indexer k = Inr idx"
    "out = map (\<lambda>nc. (fst nc, take_rows idx (snd nc))) df"
  using assms
  by (auto simp: sort_values_def get_col_def split: option.splits sum.splits)

lemma length_to_numeric: "length (to_numeric c) = col_len c"
  by (cases c) auto

lemma to_datetime_Inr:
  assumes "to_datetime df = Inr dates"
  obtains ys ms ds where "map_of df ''YEAR'' = Some ys" "map_of df ''MONTH'' = Some ms"
    "map_of df ''DAY'' = Some ds"
    "dates = map (\<lambda>(y, m, d). assemble_date y m d)
               (zip (to_numeric ys) (zip (to_numeric ms) (to_numeric ds)))"
  using assms
  by (auto simp: to_datetime_def get_col_def split: option.splits sum.splits)

lemma length_to_datetime:
  assumes "to_datetime df = Inr dates" "all_len k df"
  shows "length dates = k"
proof -
  from assms(1) obtain ys ms ds where c: "map_of df ''YEAR'' = Some ys"
      "map_of df ''MONTH'' = Some ms" "map_of df ''DAY'' = Some ds"
      "dates = map (\<lambda>(y, m, d). assemble_date y m d)
               (zip (to_numeric ys) (zip (to_numeric ms) (to_numeric ds)))"
    by (rule to_datetime_Inr)
  from c(1-3) assms(2) have "col_len ys = k" "col_len ms = k" "col_len ds = k"
    by (auto dest: all_len_map_of)
  with c(4) show ?thesis
    by (simp add: length_to_numeric)
qed

lemma date_and_sort_Inr:
  assumes "date_and_sort raw = Inr df2"
  obtains dates where
    "to_datetime (drop_columns [''WIND_SPEED'', ''WIND_DIRECTION''] raw) = Inr dates"
    "df2 = map (\<lambda>nc. (fst nc, take_rows (nargsort dates) (snd nc)))
             (set_col ''DATE'' (Datetime dates)
                (drop_columns [''WIND_SPEED'', ''WIND_DIRECTION''] raw))"
proof -
  let ?df = "drop_columns [''WIND_SPEED'', ''WIND_DIRECTION''] raw"
  from assms obtain dates where d: "to_datetime ?df = Inr dates"
      and s: "sort_values ''DATE'' (set_col ''DATE'' (Datetime dates) ?df) = Inr df2"
    by (auto simp: date_and_sort_def Let_def split: sum.splits)
  from s obtain k idx where k: "map_of (set_col ''DATE'' (Datetime dates) ?df) ''DATE'' = Some k"
      "sort_indexer k = Inr idx"
      "df2 = map (\<lambda>nc. (fst nc, take_rows idx (snd nc))) (set_col ''DATE'' (Datetime dates) ?df)"
    by (rule sort_values_Inr)
  from k(1) have "k = Datetime dates" by (simp add: map_of_set_col)
  with k(2) have "idx = nargsort dates" by simp
  with d k(3) show ?thesis by (intro that) auto
qed

subsection \<open>The fills\<close>

lemma columns_set_col_present:
  "map_of df n = Some old \<Longrightarrow> columns (set_col n c df) = columns df"
  by (simp add: columns_set_col in_columns_iff)

lemma columns_fill_temp_humidity: "columns (fill_temp_humidity cols df) = columns df"
  by (induction cols arbitrary: df) (auto simp: columns_set_col_present split: option.splits)

lemma map_of_fill_temp_humidity:
  "distinct cols \<Longrightarrow> map_of (fill_temp_humidity cols df) n =
     (if n \<in> set cols then map_option (\<lambda>c. bfill_col (ffill_col c)) (map_of df n)
      else map_of df n)"
  by (induction cols arbitrary: df) (auto simp: map_of_set_col split: option.splits)

lemma fill_rainfall_Inr:
  assumes "fill_rainfall df = Inr df'"
  shows "columns df' = columns df"
    and "n \<noteq> ''RAINFALL'' \<Longrightarrow> map_of df' n = map_of df n"
    and "map_of df ''RAINFALL'' = Some c \<Longrightarrow>
           \<exists>c'. fillna0_col c = Inr c' \<and> map_of df' ''RAINFALL'' = Some c'"
    and "map_of df ''RAINFALL'' = None \<Longrightarrow> map_of df' ''RAINFALL'' = None"
  using assms
  by (auto simp: fill_rainfall_def map_of_set_col columns_set_col_present
           split: option.splits sum.splits)

lemma fill_dengue_Inr:
  assumes "fill_dengue df = Inr df'"
  shows "columns df' = columns df"
    and "n \<noteq> ''DENGUE CASES'' \<Longrightarrow> map_of df' n = map_of df n"
    and "map_of df ''DENGUE CASES'' = Some c \<Longrightarrow>
           \<exists>c'. fillna0_col (ffill_col c) = Inr c' \<and> map_of df' ''DENGUE CASES'' = Some c'"
    and "map_of df ''DENGUE CASES'' = None \<Longrightarrow> map_of df' ''DENGUE CASES'' = None"
  using assms
  by (auto simp: fill_dengue_def map_of_set_col columns_set_col_present
           split: option.splits sum.splits)

subsection \<open>Removing negative values\<close>

lemma clamp_column_no_negatives:
  "filter is_negative xs = [] \<Longrightarrow> clamp_column xs = xs"
  by (induction xs) (auto simp: clamp_column_def split: if_splits)

lemma clamp_col_idem: "clamp_col (clamp_col c) = clamp_col c"
  by (cases c) (auto simp: clamp_column_def is_negative_def)

lemma columns_remove_negatives: "columns (remove_negatives cols df) = columns df"
  by (induction cols arbitrary: df)
     (auto simp: columns_set_col_present Let_def split: option.splits column.splits)

lemma remove_negatives_step:
  "map_of (if col \<notin> set [''YEAR'', ''MONTH'', ''DAY'']
        then (case map_of df col of
                Some (Numeric xs) \<Rightarrow>
                  (let negative_count = length (filter is_negative xs)
                   in if negative_count > 0
                      then set_col col (Numeric (clamp_column xs)) df
                      else df)
              | _ \<Rightarrow> df)
        else df) n =
    (if n = col \<and> col \<notin> set [''YEAR'', ''MONTH'', ''DAY'']
     then map_option clamp_col (map_of df n) else map_of df n)"
  by (auto simp: map_of_set_col Let_def clamp_column_no_negatives
           split: option.splits column.splits)

lemma map_of_remove_negatives:
  "map_of (remove_negatives cols df) n =
     (if n \<in> set cols \<and> n \<notin> set [''YEAR'', ''MONTH'', ''DAY'']
      then map_option clamp_col (map_of df n) else map_of df n)"
proof (induction cols arbitrary: df)
  case Nil
  then show ?case by simp
next
  case (Cons col cols)
  show ?case
    unfolding remove_negatives.simps Cons.IH remove_negatives_step
    by (cases "map_of df n") (auto simp: clamp_col_idem)
qed

lemma in_select_dtypes:
  "map_of df n = Some (Numeric xs) \<Longrightarrow> n \<in> set (select_dtypes df)"
  by (force simp: select_dtypes_def dest: map_of_SomeD)

lemma clamp_col_nonnumeric: "\<not> is_numeric c \<Longrightarrow> clamp_col c = c"
  by (cases c) auto

lemma map_of_remove_negatives_all:
  "map_of (remove_negatives (select_dtypes df) df) n =
     (if n \<notin> set [''YEAR'', ''MONTH'', ''DAY'']
      then map_option clamp_col (map_of df n) else map_of df n)"
proof (cases "map_of df n")
  case None
  then show ?thesis by (auto simp: map_of_remove_negatives)
next
  case (Some c)
  then show ?thesis
    by (cases c) (auto simp: map_of_remove_negatives in_select_dtypes)
qed

subsection \<open>Reordering\<close>

lemma map_of_select_present:
  "map_of (select_present order df) n = (if n \<in> set order then map_of df n else None)"
  by (induction order) (auto simp: select_present_def split: option.splits)

lemma columns_select_present:
  "columns (select_present order df) = filter (\<lambda>n. n \<in> set (columns df)) order"
  unfolding in_columns_iff
  by (induction order) (auto simp: select_present_def columns_def split: option.splits)

lemma set_select_present:
  "(n, c) \<in> set (select_present order df) \<longleftrightarrow> n \<in> set order \<and> map_of df n = Some c"
  by (induction order) (auto simp: select_present_def split: option.splits)

subsection \<open>The cleaner as a whole\<close>

lemma clean_data_Inr:
  assumes "clean_data raw = Inr out"
  obtains df2 df3 where "date_and_sort raw = Inr df2" "handle_missing df2 = Inr df3"
    "out = select_present col_order (remove_negatives (select_dtypes df3) df3)"
  using assms by (auto simp: clean_data_def split: sum.splits)

lemma handle_missing_Inr:
  assumes "handle_missing df = Inr df'"
  obtains df1 where "fill_rainfall (fill_temp_humidity temp_humidity_cols df) = Inr df1"
    "fill_dengue df1 = Inr df'"
  using assms by (auto simp: handle_missing_def split: sum.splits)

lemma map_of_fill_temp_humidity_cols:
  "map_of (fill_temp_humidity temp_humidity_cols df) n =
     (if n \<in> set temp_humidity_cols then map_option (\<lambda>c. bfill_col (ffill_col c)) (map_of df n)
      else map_of df n)"
  by (rule map_of_fill_temp_humidity) (simp add: temp_humidity_cols_def)

lemma not_temp_humidity:
  "''RAINFALL'' \<notin> set temp_humidity_cols" "''DENGUE CASES'' \<notin> set temp_humidity_cols"
  "''DATE'' \<notin> set temp_humidity_cols" "''YEAR'' \<notin> set temp_humidity_cols"
  "''MONTH'' \<notin> set temp_humidity_cols" "''DAY'' \<notin> set temp_humidity_cols"
  by (simp_all add: temp_humidity_cols_def)

lemma temp_humidity_not:
  "n \<in> set temp_humidity_cols \<Longrightarrow> n \<noteq> ''RAINFALL'' \<and> n \<noteq> ''DENGUE CASES''"
  by (auto simp: temp_humidity_cols_def)

lemma handle_missing_columns:
  assumes "handle_missing df = Inr df'"
  shows "columns df' = columns df"
proof -
  from assms obtain df1 where "fill_rainfall (fill_temp_humidity temp_humidity_cols df) = Inr df1"
    "fill_dengue df1 = Inr df'"
    by (rule handle_missing_Inr)
  then show ?thesis
    by (simp add: fill_rainfall_Inr(1) fill_dengue_Inr(1) columns_fill_temp_humidity)
qed

lemma handle_missing_other:
  assumes "handle_missing df = Inr df'"
    and "n \<notin> set temp_humidity_cols" "n \<noteq> ''RAINFALL''" "n \<noteq> ''DENGUE CASES''"
  shows "map_of df' n = map_of df n"
proof -
  from assms(1) obtain df1 where "fill_rainfall (fill_temp_humidity temp_humidity_cols df) = Inr df1"
    "fill_dengue df1 = Inr df'"
    by (rule handle_missing_Inr)
  with assms(2-) show ?thesis
    by (simp add: fill_rainfall_Inr(2) fill_dengue_Inr(2) map_of_fill_temp_humidity_cols)
qed

lemma handle_missing_temp:
  assumes "handle_missing df = Inr df'" and "n \<in> set temp_humidity_cols"
  shows "map_of df' n = map_option (\<lambda>c. bfill_col (ffill_col c)) (map_of df n)"
proof -
  from assms(1) obtain df1 where "fill_rainfall (fill_temp_humidity temp_humidity_cols df) = Inr df1"
    "fill_dengue df1 = Inr df'"
    by (rule handle_missing_Inr)
  with assms(2) temp_humidity_not[OF assms(2)] show ?thesis
    by (simp add: fill_rainfall_Inr(2) fill_dengue_Inr(2) map_of_fill_temp_humidity_cols)
qed

lemma handle_missing_rainfall:
  assumes "handle_missing df = Inr df'" and "map_of df ''RAINFALL'' = Some c"
  shows "\<exists>c'. fillna0_col c = Inr c' \<and> map_of df' ''RAINFALL'' = Some c'"
proof -
  from assms(1) obtain df1 where
    s: "fill_rainfall (fill_temp_humidity temp_humidity_cols df) = Inr df1"
    "fill_dengue df1 = Inr df'"
    by (rule handle_missing_Inr)
  from assms(2) have "map_of (fill_temp_humidity temp_humidity_cols df) ''RAINFALL'' = Some c"
    by (simp add: map_of_fill_temp_humidity_cols not_temp_humidity)
  from fill_rainfall_Inr(3)[OF s(1) this] s(2) show ?thesis
    by (simp add: fill_dengue_Inr(2))
qed

lemma handle_missing_dengue:
  assumes "handle_missing df = Inr df'" and "map_of df ''DENGUE CASES'' = Some c"
  shows "\<exists>c'. fillna0_col (ffill_col c) = Inr c' \<and> map_of df' ''DENGUE CASES'' = Some c'"
proof -
  from assms(1) obtain df1 where
    s: "fill_rainfall (fill_temp_humidity temp_humidity_cols df) = Inr df1"
    "fill_dengue df1 = Inr df'"
    by (rule handle_missing_Inr)
  from assms(2) s(1) have "map_of df1 ''DENGUE CASES'' = Some c"
    by (simp add: map_of_fill_temp_humidity_cols not_temp_humidity fill_rainfall_Inr(2))
  from fill_dengue_Inr(3)[OF s(2) this] show ?thesis .
qed

text \<open>The DATE column of the cleaner's output.\<close>

lemma clean_data_DATE:
  assumes "clean_data raw = Inr out"
  obtains dates where
    "to_datetime (drop_columns [''WIND_SPEED'', ''WIND_DIRECTION''] raw) = Inr dates"
    "map_of out ''DATE'' = Some (Datetime (map ((!) dates) (nargsort dates)))"
proof -
  from assms obtain df2 df3 where s: "date_and_sort raw = Inr df2" "handle_missing df2 = Inr df3"
    "out = select_present col_order (remove_negatives (select_dtypes df3) df3)"
    by (rule clean_data_Inr)
  from s(1) obtain dates where d:
    "to_datetime (drop_columns [''WIND_SPEED'', ''WIND_DIRECTION''] raw) = Inr dates"
    "df2 = map (\<lambda>nc. (fst nc, take_rows (nargsort dates) (snd nc)))
             (set_col ''DATE'' (Datetime dates)
                (drop_columns [''WIND_SPEED'', ''WIND_DIRECTION''] raw))"
    by (rule date_and_sort_Inr)
  from d(2) have "map_of df2 ''DATE'' = Some (Datetime (map ((!) dates) (nargsort dates)))"
    by (simp add: map_of_take_all map_of_set_col)
  with s(2) have "map_of df3 ''DATE'' = Some (Datetime (map ((!) dates) (nargsort dates)))"
    by (simp add: handle_missing_other not_temp_humidity)
  with s(3) have "map_of out ''DATE'' = Some (Datetime (map ((!) dates) (nargsort dates)))"
    by (simp add: map_of_select_present map_of_remove_negatives_all col_order_def)
  with d(1) show ?thesis by (rule that)
qed

lemma clean_data_sorted:
  assumes "clean_data raw = Inr out"
  shows "sorted_by_date out"
proof -
  from assms obtain dates where
    "map_of out ''DATE'' = Some (Datetime (map ((!) dates) (nargsort dates)))"
    by (rule clean_data_DATE)
  then show ?thesis
    by (simp add: sorted_by_date_def nargsort_sorted)
qed

lemma clean_data_nonnegative:
  assumes "clean_data raw = Inr out"
    and "(n, Numeric vs) \<in> set out" and "n \<notin> set [''YEAR'', ''MONTH'', ''DAY'']"
  shows "filter is_negative vs = []"
proof -
  from assms(1) obtain df2 df3 where
    s: "out = select_present col_order (remove_negatives (select_dtypes df3) df3)"
    by (rule clean_data_Inr)
  with assms(2) have "map_of (remove_negatives (select_dtypes df3) df3) n = Some (Numeric vs)"
    by (simp add: set_select_present)
  with assms(3) obtain c where "clamp_col c = Numeric vs"
    by (auto simp: map_of_remove_negatives_all)
  then show ?thesis
    by (cases c) (auto simp: clamp_column_def is_negative_def filter_empty_conv)
qed

subsection \<open>Running the cleaner on the example\<close>

lemmas cleaner_defs =
  clean_data_def date_and_sort_def handle_missing_def to_datetime_def get_col_def
  drop_columns_def set_col_def columns_def sort_values_def nargsort_def assemble_date_def
  is_whole_def valid_date_def days_in_month_def is_leap_def
  temp_humidity_cols_def fill_rainfall_def fill_dengue_def ffill_def bfill_def fillna_def
  select_dtypes_def select_present_def col_order_def clamp_column_def is_negative_def

lemma clean_raw_example: "clean_data raw_example = Inr cleaned_example"
  by (simp add: raw_example_def cleaned_example_def cleaner_defs)

section \<open>Row counts through the cleaner\<close>

lemma length_ffill_from: "length (ffill_from p xs) = length xs"
  by (induction p xs rule: ffill_from.induct) auto

lemma length_ffill: "length (ffill xs) = length xs"
  by (simp add: ffill_def length_ffill_from)

lemma length_bfill: "length (bfill xs) = length xs"
  by (simp add: bfill_def length_ffill)

lemma col_len_ffill_col: "col_len (ffill_col c) = col_len c"
  by (cases c) (auto simp: length_ffill)

lemma col_len_bfill_col: "col_len (bfill_col c) = col_len c"
  by (cases c) (auto simp: length_bfill)

lemma col_len_fillna0_col: "fillna0_col c = Inr c' \<Longrightarrow> col_len c' = col_len c"
  by (cases c) (auto simp: fillna_def)

lemma col_len_clamp_col: "col_len (clamp_col c) = col_len c"
  by (cases c) (auto simp: clamp_column_def)

lemma all_len_iff: "all_len k df \<longleftrightarrow> (\<forall>(n, c)\<in>set df. col_len c = k)"
  by (auto simp: all_len_def list_all_iff)

lemma all_len_take_rows:
  "all_len (length idx) (map (\<lambda>nc. (fst nc, take_rows idx (snd nc))) df)"
  by (auto simp: all_len_iff col_len_take_rows)

lemma all_len_fill_temp_humidity:
  "all_len k df \<Longrightarrow> all_len k (fill_temp_humidity cols df)"
proof (induction cols arbitrary: df)
  case Nil
  then show ?case by simp
next
  case (Cons col cols)
  show ?case
  proof (cases "map_of df col")
    case None
    with Cons show ?thesis by simp
  next
    case (Some c)
    with Cons.prems have "col_len (bfill_col (ffill_col c)) = k"
      by (simp add: col_len_bfill_col col_len_ffill_col all_len_map_of)
    with Cons Some show ?thesis
      by (simp add: all_len_set_col)
  qed
qed

lemma all_len_fill_rainfall:
  "all_len k df \<Longrightarrow> fill_rainfall df = Inr df' \<Longrightarrow> all_len k df'"
  by (auto simp: fill_rainfall_def split: option.splits sum.splits
           intro!: all_len_set_col dest: col_len_fillna0_col all_len_map_of)

lemma all_len_fill_dengue:
  assumes "all_len k df" "fill_dengue df = Inr df'"
  shows "all_len k df'"
proof (cases "map_of df ''DENGUE CASES''")
  case None
  with assms show ?thesis by (simp add: fill_dengue_def)
next
  case (Some c)
  with assms(2) obtain c' where c': "fillna0_col (ffill_col c) = Inr c'"
    "df' = set_col ''DENGUE CASES'' c' df"
    by (auto simp: fill_dengue_def split: sum.splits)
  from c'(1) have "col_len c' = col_len c"
    by (simp add: col_len_fillna0_col col_len_ffill_col)
  with all_len_map_of[OF assms(1) Some] assms(1) show ?thesis
    unfolding c'(2) by (intro all_len_set_col) simp_all
qed

lemma all_len_handle_missing:
  assumes "all_len k df" "handle_missing df = Inr df'"
  shows "all_len k df'"
proof -
  from assms(2) obtain df1 where
    "fill_rainfall (fill_temp_humidity temp_humidity_cols df) = Inr df1" "fill_dengue df1 = Inr df'"
    by (rule handle_missing_Inr)
  from assms(1) have "all_len k (fill_temp_humidity temp_humidity_cols df)"
    by (rule all_len_fill_temp_humidity)
  then have "all_len k df1"
    using \<open>fill_rainfall (fill_temp_humidity temp_humidity_cols df) = Inr df1\<close>
    by (rule all_len_fill_rainfall)
  then show ?thesis
    using \<open>fill_dengue df1 = Inr df'\<close> by (rule all_len_fill_dengue)
qed

lemma all_len_remove_negatives:
  "all_len k df \<Longrightarrow> all_len k (remove_negatives cols df)"
proof (induction cols arbitrary: df)
  case Nil
  then show ?case by simp
next
  case (Cons col cols)
  have "all_len k (case map_of df col of
                Some (Numeric xs) \<Rightarrow>
                  (let negative_count = length (filter is_negative xs)
                   in if negative_count > 0
                      then set_col col (Numeric (clamp_column xs)) df
                      else df)
              | _ \<Rightarrow> df)"
  proof (cases "map_of df col")
    case None
    with Cons.prems show ?thesis by simp
  next
    case (Some c)
    show ?thesis
    proof (cases c)
      case (Numeric xs)
      from all_len_map_of[OF Cons.prems Some] Numeric have "length (clamp_column xs) = k"
        by (simp add: clamp_column_def)
      with Cons.prems have "all_len k (set_col col (Numeric (clamp_column xs)) df)"
        by (intro all_len_set_col) simp_all
      with Cons.prems Some Numeric show ?thesis by (simp add: Let_def)
    qed (use Cons.prems Some in simp_all)
  qed
  with Cons.prems have "all_len k
       (if col \<notin> set [''YEAR'', ''MONTH'', ''DAY'']
        then (case map_of df col of
                Some (Numeric xs) \<Rightarrow>
                  (let negative_count = length (filter is_negative xs)
                   in if negative_count > 0
                      then set_col col (Numeric (clamp_column xs)) df
                      else df)
              | _ \<Rightarrow> df)
        else df)"
    by (simp only: if_split) simp
  then show ?case
    by (simp only: remove_negatives.simps Cons.IH)
qed

lemma all_len_select_present:
  assumes "all_len k df"
  shows "all_len k (select_present order df)"
  unfolding all_len_iff
  by (auto simp: set_select_present dest: all_len_map_of[OF assms])

lemma nrows_first_column:
  "columns df = n # ns \<Longrightarrow> map_of df n = Some c \<Longrightarrow> nrows df = col_len c"
  by (cases df) (auto simp: columns_def)

lemma date_and_sort_all_len:
  assumes "all_len k raw" "date_and_sort raw = Inr df2"
  shows "all_len k df2"
proof -
  let ?df = "drop_columns [''WIND_SPEED'', ''WIND_DIRECTION''] raw"
  from assms(2) obtain dates where d: "to_datetime ?df = Inr dates"
    "df2 = map (\<lambda>nc. (fst nc, take_rows (nargsort dates) (snd nc)))
             (set_col ''DATE'' (Datetime dates) ?df)"
    by (rule date_and_sort_Inr)
  from assms(1) have "all_len k ?df" by (rule all_len_drop_columns)
  with d(1) have "length dates = k" by (rule length_to_datetime)
  then have "length (nargsort dates) = k" by (simp add: length_nargsort)
  with d(2) all_len_take_rows[of "nargsort dates"] show ?thesis by simp
qed

lemma clean_data_all_len:
  assumes "all_len k raw" "clean_data raw = Inr out"
  shows "all_len k out"
proof -
  from assms(2) obtain df2 df3 where s: "date_and_sort raw = Inr df2" "handle_missing df2 = Inr df3"
    "out = select_present col_order (remove_negatives (select_dtypes df3) df3)"
    by (rule clean_data_Inr)
  from assms(1) s(1) have "all_len k df2" by (rule date_and_sort_all_len)
  then have "all_len k df3" using s(2) by (rule all_len_handle_missing)
  then show ?thesis
    unfolding s(3) by (intro all_len_select_present all_len_remove_negatives)
qed

lemma clean_data_columns:
  assumes "clean_data raw = Inr out"
  shows "columns out = filter (\<lambda>n. n = ''DATE'' \<or> n \<in> set (columns raw)) col_order"
proof -
  let ?df = "drop_columns [''WIND_SPEED'', ''WIND_DIRECTION''] raw"
  from assms obtain df2 df3 where s: "date_and_sort raw = Inr df2" "handle_missing df2 = Inr df3"
    "out = select_present col_order (remove_negatives (select_dtypes df3) df3)"
    by (rule clean_data_Inr)
  from s(1) obtain dates where d:
    "df2 = map (\<lambda>nc. (fst nc, take_rows (nargsort dates) (snd nc)))
             (set_col ''DATE'' (Datetime dates) ?df)"
    by (rule date_and_sort_Inr)
  have "columns df2 = columns (set_col ''DATE'' (Datetime dates) ?df)"
    unfolding d by (simp add: columns_def comp_def)
  then have "set (columns df2) = insert ''DATE'' (set (columns ?df))"
    by (auto simp: columns_set_col)
  then have "set (columns df3) =
      insert ''DATE'' (set (columns raw) - {''WIND_SPEED'', ''WIND_DIRECTION''})"
    using handle_missing_columns[OF s(2)] by (auto simp: columns_drop_columns)
  then have "filter (\<lambda>n. n \<in> set (columns df3)) col_order =
      filter (\<lambda>n. n = ''DATE'' \<or> n \<in> set (columns raw)) col_order"
    by (intro filter_cong) (auto simp: col_order_def)
  then show ?thesis
    unfolding s(3) by (simp add: columns_select_present columns_remove_negatives)
qed

lemma distinct_col_order: "distinct col_order"
  by (simp add: col_order_def)

lemma clean_data_rows:
  assumes "wf_frame raw" "clean_data raw = Inr out"
  shows "nrows out = nrows raw" and "wf_frame out"
proof -
  from assms(1) have "all_len (nrows raw) raw" by (rule wf_frame_all_len)
  then have len: "all_len (nrows raw) out" using assms(2) by (rule clean_data_all_len)
  have "columns out = filter (\<lambda>n. n = ''DATE'' \<or> n \<in> set (columns raw)) col_order"
    using assms(2) by (rule clean_data_columns)
  then have cols: "distinct (columns out)" "columns out \<noteq> []"
    by (simp_all add: distinct_col_order) (simp add: col_order_def)
  then have "out \<noteq> []" by (auto simp: columns_def)
  with len show "nrows out = nrows raw" by (rule nrows_all_len)
  with len cols show "wf_frame out" by (simp add: wf_frame_def)
qed

section \<open>Forward and backward fill\<close>


lemma ffill_from_Some: "p \<noteq> None \<Longrightarrow> None \<notin> set (ffill_from p xs)"
  by (induction p xs rule: ffill_from.induct) auto

lemma ffill_from_all_missing: "ffill_from None (replicate k None) = replicate k None"
  by (induction k) auto

lemma ffill_shape: "\<exists>k ys. ffill_from None xs = replicate k None @ ys \<and> None \<notin> set ys"
proof (induction xs)
  case Nil
  then show ?case by simp
next
  case (Cons x xs)
  show ?case
  proof (cases x)
    case None
    from Cons obtain k ys where "ffill_from None xs = replicate k None @ ys" "None \<notin> set ys"
      by blast
    with None have "ffill_from None (x # xs) = replicate (Suc k) None @ ys \<and> None \<notin> set ys"
      by simp
    then show ?thesis by blast
  next
    case (Some v)
    then have "ffill_from None (x # xs) = replicate 0 None @ (Some v # ffill_from (Some v) xs)"
      "None \<notin> set (Some v # ffill_from (Some v) xs)"
      using ffill_from_Some[of "Some v" xs] by auto
    then show ?thesis by blast
  qed
qed

lemma ffill_from_append:
  "None \<notin> set xs \<Longrightarrow>
     ffill_from p (xs @ ys) = xs @ ffill_from (if xs = [] then p else last xs) ys"
  by (induction p xs rule: ffill_from.induct) auto


lemma bfill_ffill_settled:
  "None \<notin> set (bfill (ffill xs)) \<or> (\<forall>x\<in>set (bfill (ffill xs)). x = None)"
proof -
  obtain k ys where s: "ffill xs = replicate k None @ ys" "None \<notin> set ys"
    unfolding ffill_def using ffill_shape by blast
  show ?thesis
  proof (cases "ys = []")
    case True
    with s have "bfill (ffill xs) = replicate k None"
      by (simp add: bfill_def ffill_def ffill_from_all_missing)
    then show ?thesis by simp
  next
    case False
    with s(2) have "last (rev ys) \<noteq> None"
      by (metis hd_in_set last_rev)
    with s False have "None \<notin> set (ffill (rev (ffill xs)))"
      by (simp add: ffill_def ffill_from_append ffill_from_Some)
    then show ?thesis by (simp add: bfill_def)
  qed
qed



lemma clamp_column_settled:
  "None \<notin> set xs \<or> (\<forall>x\<in>set xs. x = None) \<Longrightarrow>
   None \<notin> set (clamp_column xs) \<or> (\<forall>x\<in>set (clamp_column xs). x = None)"
  by (auto simp: clamp_column_def is_negative_def)



subsection \<open>Filling with zero\<close>

lemma fillna_no_missing: "None \<notin> set (fillna v xs)"
  by (auto simp: fillna_def split: option.splits)


lemma no_missing_iff: "filter (\<lambda>x. x = None) xs = [] \<longleftrightarrow> None \<notin> set xs"
  by (induction xs) auto

lemma missing_count_0_iff:
  "missing_count c = 0 \<longleftrightarrow>
     (case c of Numeric xs \<Rightarrow> None \<notin> set xs | Object xs \<Rightarrow> None \<notin> set xs
      | Datetime xs \<Rightarrow> None \<notin> set xs | Period xs \<Rightarrow> None \<notin> set xs)"
  by (cases c) (simp_all add: no_missing_iff)

lemma missing_count_fillna0_col: "fillna0_col c = Inr c' \<Longrightarrow> missing_count c' = 0"
  by (cases c) (auto simp: missing_count_0_iff fillna_no_missing)

lemma missing_count_clamp_col: "missing_count (clamp_col c) = missing_count c"
proof (cases c)
  case (Numeric xs)
  have "filter (\<lambda>x. x = None) (clamp_column xs) = filter (\<lambda>x. x = None) xs"
    by (induction xs) (auto simp: clamp_column_def is_negative_def)
  with Numeric show ?thesis by simp
qed auto







subsection \<open>What forward fill puts into a row\<close>

lemma nearest_preceding_0: "nearest_preceding (x # xs) 0 = x"
  by (cases x) (auto simp: nearest_preceding_def)

lemma nearest_preceding_Suc:
  "nearest_preceding (x # xs) (Suc i) =
     (case nearest_preceding xs i of None \<Rightarrow> x | Some v \<Rightarrow> Some v)"
proof -
  define r where "r = filter (\<lambda>x. x \<noteq> None) (rev (take (Suc i) xs))"
  have a: "nearest_preceding (x # xs) (Suc i) =
      (case r @ filter (\<lambda>x. x \<noteq> None) [x] of [] \<Rightarrow> None | y # rest \<Rightarrow> y)"
    unfolding r_def nearest_preceding_def by (simp del: not_None_eq)
  have b: "nearest_preceding xs i = (case r of [] \<Rightarrow> None | y # rest \<Rightarrow> y)"
    unfolding r_def nearest_preceding_def by (rule refl)
  show ?thesis
  proof (cases r)
    case Nil
    with a b show ?thesis by (cases x) simp_all
  next
    case (Cons y rest)
    then have "y \<in> set r" by simp
    then have "y \<noteq> None" unfolding r_def by simp
    then obtain v where "y = Some v" by blast
    with a b Cons show ?thesis by simp
  qed
qed

lemma ffill_from_nth:
  "i < length xs \<Longrightarrow>
     ffill_from p xs ! i = (case nearest_preceding xs i of None \<Rightarrow> p | Some v \<Rightarrow> Some v)"
proof (induction p xs arbitrary: i rule: ffill_from.induct)
  case (1 prev)
  then show ?case by simp
next
  case (2 prev xs)
  show ?case
  proof (cases i)
    case 0
    then show ?thesis by (simp add: nearest_preceding_0)
  next
    case (Suc j)
    with 2 have "ffill_from prev xs ! j =
        (case nearest_preceding xs j of None \<Rightarrow> prev | Some v \<Rightarrow> Some v)"
      by simp
    with Suc show ?thesis
      by (cases "nearest_preceding xs j") (simp_all add: nearest_preceding_Suc)
  qed
next
  case (3 prev v xs)
  show ?case
  proof (cases i)
    case 0
    then show ?thesis by (simp add: nearest_preceding_0)
  next
    case (Suc j)
    with 3 have "ffill_from (Some v) xs ! j =
        (case nearest_preceding xs j of None \<Rightarrow> Some v | Some w \<Rightarrow> Some w)"
      by simp
    with Suc show ?thesis
      by (cases "nearest_preceding xs j") (simp_all add: nearest_preceding_Suc)
  qed
qed

lemma ffill_nth: "i < length xs \<Longrightarrow> ffill xs ! i = nearest_preceding xs i"
  by (cases "nearest_preceding xs i") (simp_all add: ffill_def ffill_from_nth)

lemma clean_tmax_example: "clean_data tmax_example = Inr tmax_cleaned"
  by (simp add: tmax_example_def tmax_cleaned_def cleaner_defs)

lemma clean_dengue_example: "clean_data dengue_example = Inr dengue_cleaned"
  by (simp add: dengue_example_def dengue_cleaned_def cleaner_defs)

subsection \<open>The filled columns of the output\<close>

lemma date_and_sort_present:
  assumes "date_and_sort raw = Inr df2"
    and "n \<noteq> ''WIND_SPEED''" "n \<noteq> ''WIND_DIRECTION''"
  shows "n \<in> set (columns raw) \<Longrightarrow> n \<in> set (columns df2)"
proof -
  let ?df = "drop_columns [''WIND_SPEED'', ''WIND_DIRECTION''] raw"
  assume n: "n \<in> set (columns raw)"
  from assms(1) obtain dates where d:
    "df2 = map (\<lambda>nc. (fst nc, take_rows (nargsort dates) (snd nc)))
             (set_col ''DATE'' (Datetime dates) ?df)"
    by (rule date_and_sort_Inr)
  have "columns df2 = columns (set_col ''DATE'' (Datetime dates) ?df)"
    unfolding d by (simp add: columns_def comp_def)
  with n assms(2,3) show ?thesis
    by (auto simp: columns_set_col columns_drop_columns)
qed

lemma clean_data_rainfall:
  assumes "clean_data raw = Inr out" "date_and_sort raw = Inr df2"
    and "map_of df2 ''RAINFALL'' = Some c"
  shows "\<exists>c'. fillna0_col c = Inr c' \<and> map_of out ''RAINFALL'' = Some (clamp_col c')"
proof -
  from assms(1,2) obtain df3 where s: "handle_missing df2 = Inr df3"
    "out = select_present col_order (remove_negatives (select_dtypes df3) df3)"
    by (auto elim!: clean_data_Inr)
  from handle_missing_rainfall[OF s(1) assms(3)] obtain c' where
    "fillna0_col c = Inr c'" "map_of df3 ''RAINFALL'' = Some c'"
    by blast
  then show ?thesis
    unfolding s(2)
    by (simp add: map_of_select_present map_of_remove_negatives_all col_order_def)
qed

lemma clean_data_dengue:
  assumes "clean_data raw = Inr out" "date_and_sort raw = Inr df2"
    and "map_of df2 ''DENGUE CASES'' = Some c"
  shows "\<exists>c'. fillna0_col (ffill_col c) = Inr c' \<and>
           map_of out ''DENGUE CASES'' = Some (clamp_col c')"
proof -
  from assms(1,2) obtain df3 where s: "handle_missing df2 = Inr df3"
    "out = select_present col_order (remove_negatives (select_dtypes df3) df3)"
    by (auto elim!: clean_data_Inr)
  from handle_missing_dengue[OF s(1) assms(3)] obtain c' where
    "fillna0_col (ffill_col c) = Inr c'" "map_of df3 ''DENGUE CASES'' = Some c'"
    by blast
  then show ?thesis
    unfolding s(2)
    by (simp add: map_of_select_present map_of_remove_negatives_all col_order_def)
qed

lemma clean_data_temp:
  assumes "clean_data raw = Inr out" "date_and_sort raw = Inr df2"
    and "n \<in> set temp_humidity_cols"
  shows "map_of out n = map_option (\<lambda>c. clamp_col (bfill_col (ffill_col c))) (map_of df2 n)"
proof -
  from assms(1,2) obtain df3 where s: "handle_missing df2 = Inr df3"
    "out = select_present col_order (remove_negatives (select_dtypes df3) df3)"
    by (auto elim!: clean_data_Inr)
  from assms(3) have "n \<in> set col_order" "n \<notin> set [''YEAR'', ''MONTH'', ''DAY'']"
    by (auto simp: temp_humidity_cols_def col_order_def)
  then show ?thesis
    unfolding s(2)
    by (simp add: map_of_select_present map_of_remove_negatives_all
        handle_missing_temp[OF s(1) assms(3)] option.map_comp comp_def)
qed



subsection \<open>Clamping commutes with the fills\<close>

lemma clamp_ffill_from:
  "clamp_column (ffill_from p xs) =
     ffill_from (if is_negative p then Some 0 else p) (clamp_column xs)"
  by (induction p xs rule: ffill_from.induct) (auto simp: clamp_column_def is_negative_def)

lemma clamp_ffill: "clamp_column (ffill xs) = ffill (clamp_column xs)"
  by (simp add: ffill_def clamp_ffill_from is_negative_def)

lemma clamp_fillna: "clamp_column (fillna 0 xs) = fillna 0 (clamp_column xs)"
  by (induction xs) (auto simp: clamp_column_def fillna_def is_negative_def split: option.splits)

lemma fillna_nth:
  "i < length xs \<Longrightarrow> fillna v xs ! i = (case xs ! i of None \<Rightarrow> Some v | Some y \<Rightarrow> Some y)"
  by (simp add: fillna_def)

section \<open>Cleaning a cleaned dataset\<close>








lemma clean_data_present:
  assumes "clean_data raw = Inr out" "date_and_sort raw = Inr df2" "map_of out n = Some c"
  shows "\<exists>c0. map_of df2 n = Some c0"
proof -
  from assms(1,2) obtain df3 where s: "handle_missing df2 = Inr df3"
    "out = select_present col_order (remove_negatives (select_dtypes df3) df3)"
    by (auto elim!: clean_data_Inr)
  from assms(3) have "n \<in> set (columns out)"
    by (simp add: in_columns_iff)
  then have "n \<in> set (columns df2)"
    unfolding s(2)
    by (simp add: columns_select_present columns_remove_negatives handle_missing_columns[OF s(1)])
  then show ?thesis by (simp add: in_columns_iff)
qed




subsection \<open>Facts for the claims about the cleaner\<close>


lemma clean_data_no_missing:
  assumes "clean_data raw = Inr out"
    and "n = ''RAINFALL'' \<or> n = ''DENGUE CASES''" and "map_of out n = Some c"
  shows "missing_count c = 0"
proof -
  from assms(1) obtain df2 df3 where s: "date_and_sort raw = Inr df2"
    by (rule clean_data_Inr)
  from clean_data_present[OF assms(1) s assms(3)] obtain c0 where c0: "map_of df2 n = Some c0" ..
  from assms(2) show ?thesis
  proof
    assume n: "n = ''RAINFALL''"
    from clean_data_rainfall[OF assms(1) s c0[unfolded n]] assms(3) n obtain c' where
      "fillna0_col c0 = Inr c'" "c = clamp_col c'" by auto
    then show ?thesis
      by (simp add: missing_count_clamp_col missing_count_fillna0_col)
  next
    assume n: "n = ''DENGUE CASES''"
    from clean_data_dengue[OF assms(1) s c0[unfolded n]] assms(3) n obtain c' where
      "fillna0_col (ffill_col c0) = Inr c'" "c = clamp_col c'" by auto
    then show ?thesis
      by (simp add: missing_count_clamp_col missing_count_fillna0_col)
  qed
qed

lemma clean_data_keeps:
  assumes "clean_data raw = Inr out" and "n \<in> set col_order" and "n \<in> set (columns raw)"
  shows "n \<in> set (columns out)"
  using assms(2,3) unfolding clean_data_columns[OF assms(1)] by simp

lemma length_clamp_column: "length (clamp_column xs) = length xs"
  by (simp add: clamp_column_def)

lemma clean_data_dengue_numeric:
  assumes "clean_data raw = Inr out" "date_and_sort raw = Inr df2"
    and "map_of df2 ''DENGUE CASES'' = Some (Numeric xs)"
  shows "map_of out ''DENGUE CASES'' = Some (Numeric (fillna 0 (ffill (clamp_column xs))))"
  using clean_data_dengue[OF assms] by (simp add: clamp_fillna clamp_ffill)

lemma clean_data_rainfall_numeric:
  assumes "clean_data raw = Inr out" "date_and_sort raw = Inr df2"
    and "map_of df2 ''RAINFALL'' = Some (Numeric xs)"
  shows "map_of out ''RAINFALL'' = Some (Numeric (fillna 0 (clamp_column xs)))"
  using clean_data_rainfall[OF assms] by (simp add: clamp_fillna)

lemma filled_cases_nth:
  assumes "i < length xs"
  shows "fillna 0 (ffill xs) ! i =
           (case nearest_preceding xs i of None \<Rightarrow> Some 0 | Some v \<Rightarrow> Some v)"
  using assms by (simp add: fillna_nth length_ffill ffill_nth)

lemma filled_rainfall_nth:
  assumes "i < length xs" "xs ! i = None"
  shows "fillna 0 (clamp_column xs) ! i = Some 0"
  using assms by (simp add: fillna_nth length_clamp_column clamp_column_def is_negative_def)

lemma sort_dengue_example: "date_and_sort dengue_example = Inr dengue_sorted"
  by (simp add: dengue_example_def dengue_sorted_def cleaner_defs)

section \<open>The column names of the feature builder\<close>

lemma string_of_nat_lags:
  "string_of_nat 7 = ''7''" "string_of_nat 14 = ''14''" "string_of_nat 21 = ''21''"
  by (simp_all add: string_of_nat.simps)

lemma feature_cols_eq:
  "feature_cols =
    [''RAINFALL_LAG7'', ''RAINFALL_LAG14'', ''RAINFALL_LAG21'',
     ''TMAX_LAG7'', ''TMAX_LAG14'', ''TMAX_LAG21'',
     ''TMIN_LAG7'', ''TMIN_LAG14'', ''TMIN_LAG21'',
     ''Ave. Temp_LAG7'', ''Ave. Temp_LAG14'', ''Ave. Temp_LAG21'',
     ''RH_LAG7'', ''RH_LAG14'', ''RH_LAG21'',
     ''DENGUE_CASES_LAG7'', ''DENGUE_CASES_LAG14'', ''DENGUE_CASES_LAG21'',
     ''RAINFALL_ROLL_MEAN_7D'', ''RAINFALL_ROLL_STD_7D'',
     ''RAINFALL_ROLL_MEAN_14D'', ''RAINFALL_ROLL_STD_14D'',
     ''TMAX_ROLL_MEAN_7D'', ''TMAX_ROLL_STD_7D'', ''TMAX_ROLL_MEAN_14D'', ''TMAX_ROLL_STD_14D'',
     ''TMIN_ROLL_MEAN_7D'', ''TMIN_ROLL_STD_7D'', ''TMIN_ROLL_MEAN_14D'', ''TMIN_ROLL_STD_14D'',
     ''Ave. Temp_ROLL_MEAN_7D'', ''Ave. Temp_ROLL_STD_7D'',
     ''Ave. Temp_ROLL_MEAN_14D'', ''Ave. Temp_ROLL_STD_14D'',
     ''RH_ROLL_MEAN_7D'', ''RH_ROLL_STD_7D'', ''RH_ROLL_MEAN_14D'', ''RH_ROLL_STD_14D'',
     ''DENGUE_CASES_ROLL_MEAN_7D'', ''DENGUE_CASES_ROLL_MEAN_14D'',
     ''TEMP_RANGE'', ''RAIN_TEMP_INTERACTION'', ''HUMIDITY_TEMP_INTERACTION'',
     ''WEEK_OF_YEAR'', ''QUARTER'', ''IS_RAINY_SEASON'']"
  by (simp add: feature_cols_def lag_cols_def roll_cols_def dengue_roll_cols_def
      weather_vars_def lag_periods_def rolling_windows_def lag_name_def roll_mean_name_def
      roll_std_name_def string_of_nat_lags)

lemma distinct_feature_cols: "distinct feature_cols"
  unfolding feature_cols_eq by simp

lemma base_not_feature: "set base_cols \<inter> set feature_cols = {}"
  unfolding feature_cols_eq by (simp add: base_cols_def weather_vars_def)

section \<open>The steps of the feature builder\<close>

lemma ebind_Inr: "ebind r f = Inr y \<longleftrightarrow> (\<exists>x. r = Inr x \<and> f x = Inr y)"
  by (cases r) (auto simp: ebind_def)

lemma ebind_Inr_simp [simp]: "ebind (Inr x) f = f x"
  by (simp add: ebind_def)

lemma ebind_Inl_simp [simp]: "ebind (Inl e) f = Inl e"
  by (simp add: ebind_def)

subsection \<open>Lags\<close>

lemma length_shift: "length (shift n xs) = length xs"
  by (simp add: shift_def)


lemma shift_nth:
  "i < length xs \<Longrightarrow> shift n xs ! i = (if i < n then None else xs ! (i - n))"
  by (auto simp: shift_def nth_append)

lemma lag_loop_other:
  "n \<notin> set (map (lag_name prefix) lags) \<Longrightarrow> map_of (lag_loop var prefix lags df) n = map_of df n"
  by (induction lags arbitrary: df) (auto simp: map_of_set_col split: option.splits)

lemma lag_loop_value:
  assumes "map_of df var = Some c" "var \<notin> set (map (lag_name prefix) lags)"
    and "distinct (map (lag_name prefix) lags)" "l \<in> set lags"
  shows "map_of (lag_loop var prefix lags df) (lag_name prefix l) = Some (shift_col l c)"
  using assms
proof (induction lags arbitrary: df)
  case Nil
  then show ?case by simp
next
  case (Cons l0 ls)
  let ?df = "set_col (lag_name prefix l0) (shift_col l0 c) df"
  from Cons.prems have var: "map_of ?df var = Some c"
    by (auto simp: map_of_set_col)
  show ?case
  proof (cases "l = l0")
    case True
    with Cons.prems have "lag_name prefix l \<notin> set (map (lag_name prefix) ls)" by auto
    then have "map_of (lag_loop var prefix ls ?df) (lag_name prefix l) = map_of ?df (lag_name prefix l)"
      by (rule lag_loop_other)
    with True Cons.prems(1) show ?thesis by (simp add: map_of_set_col)
  next
    case False
    with Cons.prems have "map_of (lag_loop var prefix ls ?df) (lag_name prefix l) = Some (shift_col l c)"
      by (intro Cons.IH var) auto
    with Cons.prems(1) show ?thesis by simp
  qed
qed


lemma weather_lags_other:
  "n \<notin> set (concat (map lag_cols vars)) \<Longrightarrow> map_of (weather_lags vars df) n = map_of df n"
  by (induction vars arbitrary: df) (auto simp: lag_cols_def lag_loop_other)

lemma weather_lags_value:
  assumes "distinct (concat (map lag_cols vars))"
    and "set vars \<inter> set (concat (map lag_cols vars)) = {}"
    and "v \<in> set vars" "map_of df v = Some c" "l \<in> set lag_periods"
  shows "map_of (weather_lags vars df) (lag_name v l) = Some (shift_col l c)"
  using assms
proof (induction vars arbitrary: df)
  case Nil
  then show ?case by simp
next
  case (Cons v0 vs)
  let ?df = "if v0 \<in> set (columns df) then lag_loop v0 v0 lag_periods df else df"
  from Cons.prems(1) have d0: "distinct (lag_cols v0)" and ds: "distinct (concat (map lag_cols vs))"
    and disj: "set (lag_cols v0) \<inter> set (concat (map lag_cols vs)) = {}"
    by simp_all
  from Cons.prems(2) have base: "set (v0 # vs) \<inter> set (lag_cols v0) = {}"
    "set vs \<inter> set (concat (map lag_cols vs)) = {}"
    by auto
  show ?case
  proof (cases "v = v0")
    case True
    with Cons.prems(4) have "v0 \<in> set (columns df)" by (simp add: in_columns_iff)
    moreover have "map_of (lag_loop v0 v0 lag_periods df) (lag_name v0 l) = Some (shift_col l c)"
      using Cons.prems(4,5) True d0 base(1)
      by (intro lag_loop_value) (auto simp: lag_cols_def)
    moreover have "lag_name v0 l \<notin> set (concat (map lag_cols vs))"
      using disj Cons.prems(5) by (auto simp: lag_cols_def)
    ultimately show ?thesis
      using True by (simp add: weather_lags_other)
  next
    case False
    with Cons.prems(3) have v: "v \<in> set vs" by simp
    with base(1) have "v \<notin> set (map (lag_name v0) lag_periods)"
      by (auto simp: lag_cols_def)
    then have "map_of ?df v = Some c"
      using Cons.prems(4) by (simp add: lag_loop_other)
    with ds base(2) v Cons.prems(5)
    have "map_of (weather_lags vs ?df) (lag_name v l) = Some (shift_col l c)"
      by (intro Cons.IH)
    then show ?thesis by simp
  qed
qed


lemma dengue_lags_other:
  "n \<notin> set (lag_cols ''DENGUE_CASES'') \<Longrightarrow> map_of (dengue_lags df) n = map_of df n"
  by (simp add: dengue_lags_def lag_cols_def lag_loop_other)


subsection \<open>Rolling statistics\<close>

lemma length_rolling_mean: "length (rolling_mean w p xs) = length xs"
  by (simp add: rolling_mean_def)

lemma length_rolling_std: "length (rolling_std w p xs) = length xs"
  by (simp add: rolling_std_def)

lemma var_not_roll_name: "var \<noteq> roll_mean_name var w" "var \<noteq> roll_std_name var w"
  by (simp_all add: roll_mean_name_def roll_std_name_def)

lemma rolling_mean_col_Inr:
  "rolling_mean_col w c = Inr m \<longleftrightarrow> (\<exists>xs. c = Numeric xs \<and> m = Numeric (rolling_mean w 1 xs))"
  by (cases c) auto

lemma rolling_std_col_Inr:
  "rolling_std_col w c = Inr s \<longleftrightarrow> (\<exists>xs. c = Numeric xs \<and> s = Numeric (rolling_std w 1 xs))"
  by (cases c) auto

lemma roll_loop_Cons:
  assumes "roll_loop var (w # ws) df = Inr df'"
  obtains xs where "map_of df var = Some (Numeric xs)"
    "roll_loop var ws
       (set_col (roll_std_name var w) (Numeric (rolling_std w 1 xs))
          (set_col (roll_mean_name var w) (Numeric (rolling_mean w 1 xs)) df)) = Inr df'"
proof -
  from assms obtain c m c' s where
    c: "map_of df var = Some c" and m: "rolling_mean_col w c = Inr m"
    and c': "map_of (set_col (roll_mean_name var w) m df) var = Some c'"
    and s: "rolling_std_col w c' = Inr s"
    and r: "roll_loop var ws
       (set_col (roll_std_name var w) s (set_col (roll_mean_name var w) m df)) = Inr df'"
    by (auto simp: ebind_Inr get_col_Inr)
  from c c' have "c' = c"
    by (simp add: map_of_set_col var_not_roll_name)
  with c m s r show ?thesis
    by (auto simp: rolling_mean_col_Inr rolling_std_col_Inr intro: that)
qed

lemma roll_loop_other:
  assumes "roll_loop var ws df = Inr df'"
    and "n \<notin> set (concat (map (\<lambda>w. [roll_mean_name var w, roll_std_name var w]) ws))"
  shows "map_of df' n = map_of df n"
  using assms
proof (induction ws arbitrary: df)
  case Nil
  then show ?case by simp
next
  case (Cons w ws)
  from Cons.prems(1) obtain xs where
    r: "roll_loop var ws
       (set_col (roll_std_name var w) (Numeric (rolling_std w 1 xs))
          (set_col (roll_mean_name var w) (Numeric (rolling_mean w 1 xs)) df)) = Inr df'"
    by (rule roll_loop_Cons)
  from Cons.IH[OF r] Cons.prems(2) show ?case
    by (simp add: map_of_set_col)
qed

lemma roll_loop_value:
  assumes "roll_loop var ws df = Inr df'"
    and "distinct (concat (map (\<lambda>w. [roll_mean_name var w, roll_std_name var w]) ws))"
    and "w \<in> set ws"
  shows "\<exists>xs. map_of df var = Some (Numeric xs)
           \<and> map_of df' (roll_mean_name var w) = Some (Numeric (rolling_mean w 1 xs))
           \<and> map_of df' (roll_std_name var w) = Some (Numeric (rolling_std w 1 xs))"
  using assms
proof (induction ws arbitrary: df)
  case Nil
  then show ?case by simp
next
  case (Cons w0 ws)
  let ?names = "concat (map (\<lambda>w. [roll_mean_name var w, roll_std_name var w]) ws)"
  from Cons.prems(1) obtain xs where v: "map_of df var = Some (Numeric xs)" and
    r: "roll_loop var ws
       (set_col (roll_std_name var w0) (Numeric (rolling_std w0 1 xs))
          (set_col (roll_mean_name var w0) (Numeric (rolling_mean w0 1 xs)) df)) = Inr df'"
    (is "roll_loop var ws ?df = _")
    by (rule roll_loop_Cons)
  from Cons.prems(2) have d: "roll_mean_name var w0 \<noteq> roll_std_name var w0"
    "roll_mean_name var w0 \<notin> set ?names" "roll_std_name var w0 \<notin> set ?names" "distinct ?names"
    by auto
  show ?case
  proof (cases "w = w0")
    case True
    from roll_loop_other[OF r d(2)] roll_loop_other[OF r d(3)] d(1) v True show ?thesis
      by (simp add: map_of_set_col)
  next
    case False
    with Cons.prems(3) have "w \<in> set ws" by simp
    from Cons.IH[OF r d(4) this] v show ?thesis
      by (simp add: map_of_set_col var_not_roll_name)
  qed
qed


lemma roll_loop_windows_other:
  assumes "if v \<in> set (columns df) then roll_loop v rolling_windows df = Inr df1 else df1 = df"
    and "n \<notin> set (roll_cols v)"
  shows "map_of df1 n = map_of df n"
proof (cases "v \<in> set (columns df)")
  case True
  with assms(1) have "roll_loop v rolling_windows df = Inr df1" by simp
  then show ?thesis
    using assms(2) unfolding roll_cols_def by (rule roll_loop_other)
next
  case False
  with assms(1) show ?thesis by simp
qed

lemma weather_rolling_Cons:
  assumes "weather_rolling (v # vs) df = Inr df'"
  obtains df1 where "if v \<in> set (columns df) then roll_loop v rolling_windows df = Inr df1
                      else df1 = df"
    "weather_rolling vs df1 = Inr df'"
  using assms by (auto simp: ebind_Inr split: if_splits)

lemma weather_rolling_other:
  assumes "weather_rolling vars df = Inr df'" and "n \<notin> set (concat (map roll_cols vars))"
  shows "map_of df' n = map_of df n"
  using assms
proof (induction vars arbitrary: df)
  case Nil
  then show ?case by simp
next
  case (Cons v vs)
  from Cons.prems(1) obtain df1 where
    s: "if v \<in> set (columns df) then roll_loop v rolling_windows df = Inr df1 else df1 = df"
    "weather_rolling vs df1 = Inr df'"
    by (rule weather_rolling_Cons)
  from Cons.prems(2) have n: "n \<notin> set (roll_cols v)" "n \<notin> set (concat (map roll_cols vs))"
    by auto
  from s(1) n(1) have "map_of df1 n = map_of df n"
    by (rule roll_loop_windows_other)
  with Cons.IH[OF s(2) n(2)] show ?case by simp
qed

lemma weather_rolling_value:
  assumes "weather_rolling vars df = Inr df'"
    and "distinct (concat (map roll_cols vars))"
    and "set vars \<inter> set (concat (map roll_cols vars)) = {}"
    and "v \<in> set vars" "map_of df v = Some c" "w \<in> set rolling_windows"
  shows "\<exists>xs. c = Numeric xs
           \<and> map_of df' (roll_mean_name v w) = Some (Numeric (rolling_mean w 1 xs))
           \<and> map_of df' (roll_std_name v w) = Some (Numeric (rolling_std w 1 xs))"
  using assms
proof (induction vars arbitrary: df)
  case Nil
  then show ?case by simp
next
  case (Cons v0 vs)
  from Cons.prems(1) obtain df1 where
    s: "if v0 \<in> set (columns df) then roll_loop v0 rolling_windows df = Inr df1 else df1 = df"
    "weather_rolling vs df1 = Inr df'"
    by (rule weather_rolling_Cons)
  from Cons.prems(2) have d0: "distinct (roll_cols v0)" and ds: "distinct (concat (map roll_cols vs))"
    and disj: "set (roll_cols v0) \<inter> set (concat (map roll_cols vs)) = {}"
    by simp_all
  from Cons.prems(3) have base: "set (v0 # vs) \<inter> set (roll_cols v0) = {}"
    "set vs \<inter> set (concat (map roll_cols vs)) = {}"
    by auto
  show ?case
  proof (cases "v = v0")
    case True
    with Cons.prems(5) have "v0 \<in> set (columns df)" by (simp add: in_columns_iff)
    with s(1) have r: "roll_loop v0 rolling_windows df = Inr df1" by simp
    from roll_loop_value[OF r d0[unfolded roll_cols_def] Cons.prems(6)] Cons.prems(5) True
    obtain xs where x: "c = Numeric xs"
      "map_of df1 (roll_mean_name v0 w) = Some (Numeric (rolling_mean w 1 xs))"
      "map_of df1 (roll_std_name v0 w) = Some (Numeric (rolling_std w 1 xs))"
      by auto
    have "roll_mean_name v0 w \<in> set (roll_cols v0)" "roll_std_name v0 w \<in> set (roll_cols v0)"
      using Cons.prems(6) by (auto simp: roll_cols_def)
    with disj have "roll_mean_name v0 w \<notin> set (concat (map roll_cols vs))"
      "roll_std_name v0 w \<notin> set (concat (map roll_cols vs))"
      by blast+
    with x True weather_rolling_other[OF s(2)] show ?thesis by simp
  next
    case False
    with Cons.prems(4) have v: "v \<in> set vs" by simp
    with base(1) have "v \<notin> set (roll_cols v0)" by auto
    with s(1) have "map_of df1 v = map_of df v"
      by (rule roll_loop_windows_other)
    with Cons.prems(5) have "map_of df1 v = Some c" by simp
    from Cons.IH[OF s(2) ds base(2) v this Cons.prems(6)] show ?thesis .
  qed
qed


subsection \<open>Case-count rolling mean, interactions, calendar features\<close>

lemma dengue_roll_loop_Cons:
  assumes "dengue_roll_loop (w # ws) df = Inr df'"
  obtains xs where "map_of df ''DENGUE CASES'' = Some (Numeric xs)"
    "dengue_roll_loop ws
       (set_col (roll_mean_name ''DENGUE_CASES'' w) (Numeric (rolling_mean w 1 xs)) df) = Inr df'"
  using assms by (auto simp: ebind_Inr get_col_Inr rolling_mean_col_Inr)

lemma dengue_roll_loop_other:
  assumes "dengue_roll_loop ws df = Inr df'"
    and "n \<notin> set (map (roll_mean_name ''DENGUE_CASES'') ws)"
  shows "map_of df' n = map_of df n"
  using assms
proof (induction ws arbitrary: df)
  case Nil
  then show ?case by simp
next
  case (Cons w ws)
  from Cons.prems(1) obtain xs where
    r: "dengue_roll_loop ws
       (set_col (roll_mean_name ''DENGUE_CASES'' w) (Numeric (rolling_mean w 1 xs)) df) = Inr df'"
    by (rule dengue_roll_loop_Cons)
  from Cons.IH[OF r] Cons.prems(2) show ?case
    by (simp add: map_of_set_col)
qed


lemma dengue_rolling_other:
  assumes "dengue_rolling df = Inr df'" and "n \<notin> set dengue_roll_cols"
  shows "map_of df' n = map_of df n"
proof (cases "''DENGUE CASES'' \<in> set (columns df)")
  case True
  with assms(1) have "dengue_roll_loop rolling_windows df = Inr df'"
    by (simp add: dengue_rolling_def)
  then show ?thesis
    using assms(2) unfolding dengue_roll_cols_def by (rule dengue_roll_loop_other)
next
  case False
  with assms(1) show ?thesis by (simp add: dengue_rolling_def)
qed


lemma column_op_Inr:
  "column_op f x y = Inr c \<longleftrightarrow>
     (\<exists>xs ys. x = Numeric xs \<and> y = Numeric ys \<and> c = Numeric (map2 (cell_op f) xs ys))"
  by (cases x; cases y) auto

lemma interaction_Inr:
  assumes "interaction name f a b df = Inr df'"
  shows "n \<noteq> name \<Longrightarrow> map_of df' n = map_of df n"
    and "all_len k df \<Longrightarrow> all_len k df'"
proof -
  show "map_of df' n = map_of df n" if "n \<noteq> name"
    using assms that
    by (auto simp: interaction_def ebind_Inr map_of_set_col split: if_splits)
  show "all_len k df'" if len: "all_len k df"
  proof (cases "a \<in> set (columns df) \<and> b \<in> set (columns df)")
    case True
    with assms obtain xs ys where c: "map_of df a = Some (Numeric xs)"
      "map_of df b = Some (Numeric ys)"
      "df' = set_col name (Numeric (map2 (cell_op f) xs ys)) df"
      by (auto simp: interaction_def ebind_Inr get_col_Inr column_op_Inr)
    from all_len_map_of[OF len c(1)] all_len_map_of[OF len c(2)]
    have "length xs = k" "length ys = k" by simp_all
    with len show ?thesis
      unfolding c(3) by (intro all_len_set_col) simp_all
  next
    case False
    with assms len show ?thesis by (auto simp: interaction_def)
  qed
qed

lemma interactions_Inr:
  assumes "interactions df = Inr df'"
  shows "n \<notin> set [''TEMP_RANGE'', ''RAIN_TEMP_INTERACTION'', ''HUMIDITY_TEMP_INTERACTION'']
           \<Longrightarrow> map_of df' n = map_of df n"
    and "all_len k df \<Longrightarrow> all_len k df'"
proof -
  from assms obtain df1 df2 where
    s: "interaction ''TEMP_RANGE'' (-) ''TMAX'' ''TMIN'' df = Inr df1"
    "interaction ''RAIN_TEMP_INTERACTION'' (*) ''RAINFALL'' ''Ave. Temp'' df1 = Inr df2"
    "interaction ''HUMIDITY_TEMP_INTERACTION'' (*) ''RH'' ''Ave. Temp'' df2 = Inr df'"
    by (auto simp: interactions_def ebind_Inr)
  show "map_of df' n = map_of df n"
    if "n \<notin> set [''TEMP_RANGE'', ''RAIN_TEMP_INTERACTION'', ''HUMIDITY_TEMP_INTERACTION'']"
    using that interaction_Inr(1)[OF s(1), of n] interaction_Inr(1)[OF s(2), of n]
      interaction_Inr(1)[OF s(3), of n]
    by simp
  show "all_len k df'" if "all_len k df"
    using that interaction_Inr(2)[OF s(1)] interaction_Inr(2)[OF s(2)] interaction_Inr(2)[OF s(3)]
    by blast
qed

lemma dt_field_Inr:
  "dt_field f c = Inr r \<longleftrightarrow>
     (\<exists>ds. c = Datetime ds \<and> r = Numeric (map (map_option (\<lambda>d. real_of_int (f d))) ds))"
  by (cases c) auto

lemma col_len_is_rainy_season: "col_len (is_rainy_season c) = col_len c"
  by (cases c) simp_all

lemma time_features_Inr:
  assumes "time_features df = Inr df'"
  shows "n \<notin> set [''WEEK_OF_YEAR'', ''QUARTER'', ''IS_RAINY_SEASON'']
           \<Longrightarrow> map_of df' n = map_of df n"
    and "all_len k df \<Longrightarrow> all_len k df'"
proof -
  from assms obtain d week d' q m where
    s: "map_of df ''DATE'' = Some d" "dt_field iso_week d = Inr week"
    "map_of (set_col ''WEEK_OF_YEAR'' week df) ''DATE'' = Some d'" "dt_field quarter d' = Inr q"
    "map_of (set_col ''QUARTER'' q (set_col ''WEEK_OF_YEAR'' week df)) ''MONTH'' = Some m"
    "df' = set_col ''IS_RAINY_SEASON'' (is_rainy_season m)
              (set_col ''QUARTER'' q (set_col ''WEEK_OF_YEAR'' week df))"
    by (auto simp: time_features_def ebind_Inr get_col_Inr)
  show "map_of df' n = map_of df n"
    if "n \<notin> set [''WEEK_OF_YEAR'', ''QUARTER'', ''IS_RAINY_SEASON'']"
    using that unfolding s(6) by (simp add: map_of_set_col)
  show "all_len k df'" if len: "all_len k df"
  proof -
    from s(3) have d': "d' = d" using s(1) by (simp add: map_of_set_col)
    from s(5) have m: "map_of df ''MONTH'' = Some m" by (simp add: map_of_set_col)
    from all_len_map_of[OF len s(1)] all_len_map_of[OF len m]
    have "col_len d = k" "col_len m = k" by simp_all
    with s(2,4) d' have "col_len week = k" "col_len q = k" "col_len (is_rainy_season m) = k"
      by (auto simp: dt_field_Inr col_len_is_rainy_season)
    with len show ?thesis
      unfolding s(6) by (intro all_len_set_col)
  qed
qed


subsection \<open>The feature builder as a whole\<close>

lemma create_lag_features_Inr:
  assumes "create_lag_features df = Inr out"
  obtains s df1 df2 df3 where "sort_values ''DATE'' df = Inr s"
    "weather_rolling weather_vars (dengue_lags (weather_lags weather_vars s)) = Inr df1"
    "dengue_rolling df1 = Inr df2" "interactions df2 = Inr df3" "time_features df3 = Inr out"
  using assms by (auto simp: create_lag_features_def ebind_Inr)

lemma feature_cols_split:
  "distinct (concat (map lag_cols weather_vars))"
  "distinct (concat (map roll_cols weather_vars))"
  "set (concat (map lag_cols weather_vars)) \<inter>
     (set (lag_cols ''DENGUE_CASES'') \<union> (set (concat (map roll_cols weather_vars)) \<union>
       (set dengue_roll_cols \<union>
         (set [''TEMP_RANGE'', ''RAIN_TEMP_INTERACTION'', ''HUMIDITY_TEMP_INTERACTION''] \<union>
          set [''WEEK_OF_YEAR'', ''QUARTER'', ''IS_RAINY_SEASON''])))) = {}"
  "set (lag_cols ''DENGUE_CASES'') \<inter>
     (set (concat (map roll_cols weather_vars)) \<union>
       (set dengue_roll_cols \<union>
         (set [''TEMP_RANGE'', ''RAIN_TEMP_INTERACTION'', ''HUMIDITY_TEMP_INTERACTION''] \<union>
          set [''WEEK_OF_YEAR'', ''QUARTER'', ''IS_RAINY_SEASON'']))) = {}"
  "set (concat (map roll_cols weather_vars)) \<inter>
       (set dengue_roll_cols \<union>
         (set [''TEMP_RANGE'', ''RAIN_TEMP_INTERACTION'', ''HUMIDITY_TEMP_INTERACTION''] \<union>
          set [''WEEK_OF_YEAR'', ''QUARTER'', ''IS_RAINY_SEASON''])) = {}"
  using distinct_feature_cols
  by (simp_all only: feature_cols_def distinct_append set_append)

lemma feature_cols_parts:
  "distinct (concat (map lag_cols weather_vars))"
  "distinct (concat (map roll_cols weather_vars))"
  "set (concat (map lag_cols weather_vars)) \<subseteq> set feature_cols"
  "set (lag_cols ''DENGUE_CASES'') \<subseteq> set feature_cols"
  "set (concat (map roll_cols weather_vars)) \<subseteq> set feature_cols"
  "set dengue_roll_cols \<subseteq> set feature_cols"
  "set [''TEMP_RANGE'', ''RAIN_TEMP_INTERACTION'', ''HUMIDITY_TEMP_INTERACTION''] \<subseteq> set feature_cols"
  "set [''WEEK_OF_YEAR'', ''QUARTER'', ''IS_RAINY_SEASON''] \<subseteq> set feature_cols"
proof -
  show "distinct (concat (map lag_cols weather_vars))"
    "distinct (concat (map roll_cols weather_vars))"
    by (rule feature_cols_split)+
  have eq: "set feature_cols = set (concat (map lag_cols weather_vars)) \<union>
     (set (lag_cols ''DENGUE_CASES'') \<union> (set (concat (map roll_cols weather_vars)) \<union>
       (set dengue_roll_cols \<union>
         (set [''TEMP_RANGE'', ''RAIN_TEMP_INTERACTION'', ''HUMIDITY_TEMP_INTERACTION''] \<union>
          set [''WEEK_OF_YEAR'', ''QUARTER'', ''IS_RAINY_SEASON'']))))"
    by (simp only: feature_cols_def set_append)
  show "set (concat (map lag_cols weather_vars)) \<subseteq> set feature_cols"
    "set (lag_cols ''DENGUE_CASES'') \<subseteq> set feature_cols"
    "set (concat (map roll_cols weather_vars)) \<subseteq> set feature_cols"
    "set dengue_roll_cols \<subseteq> set feature_cols"
    "set [''TEMP_RANGE'', ''RAIN_TEMP_INTERACTION'', ''HUMIDITY_TEMP_INTERACTION''] \<subseteq> set feature_cols"
    "set [''WEEK_OF_YEAR'', ''QUARTER'', ''IS_RAINY_SEASON''] \<subseteq> set feature_cols"
    unfolding eq by blast+
qed

lemma feature_cols_disjoint:
  "n \<in> set (concat (map lag_cols weather_vars)) \<Longrightarrow>
     n \<notin> set (lag_cols ''DENGUE_CASES'') \<and> n \<notin> set (concat (map roll_cols weather_vars))
     \<and> n \<notin> set dengue_roll_cols
     \<and> n \<notin> set [''TEMP_RANGE'', ''RAIN_TEMP_INTERACTION'', ''HUMIDITY_TEMP_INTERACTION'']
     \<and> n \<notin> set [''WEEK_OF_YEAR'', ''QUARTER'', ''IS_RAINY_SEASON'']"
  "n \<in> set (lag_cols ''DENGUE_CASES'') \<Longrightarrow>
     n \<notin> set (concat (map roll_cols weather_vars))
     \<and> n \<notin> set dengue_roll_cols
     \<and> n \<notin> set [''TEMP_RANGE'', ''RAIN_TEMP_INTERACTION'', ''HUMIDITY_TEMP_INTERACTION'']
     \<and> n \<notin> set [''WEEK_OF_YEAR'', ''QUARTER'', ''IS_RAINY_SEASON'']"
  "n \<in> set (concat (map roll_cols weather_vars)) \<Longrightarrow>
     n \<notin> set dengue_roll_cols
     \<and> n \<notin> set [''TEMP_RANGE'', ''RAIN_TEMP_INTERACTION'', ''HUMIDITY_TEMP_INTERACTION'']
     \<and> n \<notin> set [''WEEK_OF_YEAR'', ''QUARTER'', ''IS_RAINY_SEASON'']"
  using feature_cols_split(3) feature_cols_split(4) feature_cols_split(5) by blast+

lemma weather_not_feature:
  "v \<in> set weather_vars \<Longrightarrow> v \<notin> set feature_cols"
  "''DENGUE CASES'' \<notin> set feature_cols" "''DATE'' \<notin> set feature_cols"
  "''MONTH'' \<notin> set feature_cols"
  using base_not_feature by (auto simp: base_cols_def)

lemma builder_untouched:
  assumes "create_lag_features df = Inr out" "sort_values ''DATE'' df = Inr s"
    and "n \<notin> set feature_cols"
  shows "map_of out n = map_of s n"
proof -
  from assms(1,2) obtain df1 df2 df3 where
    st: "weather_rolling weather_vars (dengue_lags (weather_lags weather_vars s)) = Inr df1"
    "dengue_rolling df1 = Inr df2" "interactions df2 = Inr df3" "time_features df3 = Inr out"
    by (auto elim!: create_lag_features_Inr)
  from assms(3) feature_cols_parts(3-8) have n:
    "n \<notin> set (concat (map lag_cols weather_vars))" "n \<notin> set (lag_cols ''DENGUE_CASES'')"
    "n \<notin> set (concat (map roll_cols weather_vars))" "n \<notin> set dengue_roll_cols"
    "n \<notin> set [''TEMP_RANGE'', ''RAIN_TEMP_INTERACTION'', ''HUMIDITY_TEMP_INTERACTION'']"
    "n \<notin> set [''WEEK_OF_YEAR'', ''QUARTER'', ''IS_RAINY_SEASON'']"
    by blast+
  have "map_of out n = map_of df3 n" using st(4) n(6) by (rule time_features_Inr(1))
  also have "\<dots> = map_of df2 n" using st(3) n(5) by (rule interactions_Inr(1))
  also have "\<dots> = map_of df1 n" using st(2) n(4) by (rule dengue_rolling_other)
  also have "\<dots> = map_of (dengue_lags (weather_lags weather_vars s)) n"
    using st(1) n(3) by (rule weather_rolling_other)
  also have "\<dots> = map_of (weather_lags weather_vars s) n"
    using n(2) by (rule dengue_lags_other)
  also have "\<dots> = map_of s n" using n(1) by (rule weather_lags_other)
  finally show ?thesis .
qed

lemma weather_base_disjoint:
  "set weather_vars \<inter> set (concat (map lag_cols weather_vars)) = {}"
  "set weather_vars \<inter> set (concat (map roll_cols weather_vars)) = {}"
  using weather_not_feature(1) feature_cols_parts(3,5) by blast+

lemma builder_weather_lag:
  assumes "create_lag_features df = Inr out" "sort_values ''DATE'' df = Inr s"
    and "v \<in> set weather_vars" "map_of s v = Some c" "l \<in> set lag_periods"
  shows "map_of out (lag_name v l) = Some (shift_col l c)"
proof -
  from assms(1,2) obtain df1 df2 df3 where
    st: "weather_rolling weather_vars (dengue_lags (weather_lags weather_vars s)) = Inr df1"
    "dengue_rolling df1 = Inr df2" "interactions df2 = Inr df3" "time_features df3 = Inr out"
    by (auto elim!: create_lag_features_Inr)
  let ?n = "lag_name v l"
  from assms(3,5) have "?n \<in> set (concat (map lag_cols weather_vars))"
    by (auto simp: lag_cols_def)
  from feature_cols_disjoint(1)[OF this] have n:
    "?n \<notin> set (lag_cols ''DENGUE_CASES'')"
    "?n \<notin> set (concat (map roll_cols weather_vars))" "?n \<notin> set dengue_roll_cols"
    "?n \<notin> set [''TEMP_RANGE'', ''RAIN_TEMP_INTERACTION'', ''HUMIDITY_TEMP_INTERACTION'']"
    "?n \<notin> set [''WEEK_OF_YEAR'', ''QUARTER'', ''IS_RAINY_SEASON'']"
    by blast+
  have "map_of out ?n = map_of df3 ?n" using st(4) n(5) by (rule time_features_Inr(1))
  also have "\<dots> = map_of df2 ?n" using st(3) n(4) by (rule interactions_Inr(1))
  also have "\<dots> = map_of df1 ?n" using st(2) n(3) by (rule dengue_rolling_other)
  also have "\<dots> = map_of (dengue_lags (weather_lags weather_vars s)) ?n"
    using st(1) n(2) by (rule weather_rolling_other)
  also have "\<dots> = map_of (weather_lags weather_vars s) ?n"
    using n(1) by (rule dengue_lags_other)
  also have "\<dots> = Some (shift_col l c)"
    using feature_cols_parts(1) weather_base_disjoint(1) assms(3-5)
    by (rule weather_lags_value)
  finally show ?thesis .
qed

lemma dengue_lag_cols_distinct:
  "distinct (map (lag_name ''DENGUE_CASES'') lag_periods)"
  "''DENGUE CASES'' \<notin> set (map (lag_name ''DENGUE_CASES'') lag_periods)"
  using distinct_feature_cols weather_not_feature(2) feature_cols_parts(4)
  unfolding feature_cols_def lag_cols_def by auto

lemma builder_dengue_lag:
  assumes "create_lag_features df = Inr out" "sort_values ''DATE'' df = Inr s"
    and "map_of s ''DENGUE CASES'' = Some c" "l \<in> set lag_periods"
  shows "map_of out (lag_name ''DENGUE_CASES'' l) = Some (shift_col l c)"
proof -
  from assms(1,2) obtain df1 df2 df3 where
    st: "weather_rolling weather_vars (dengue_lags (weather_lags weather_vars s)) = Inr df1"
    "dengue_rolling df1 = Inr df2" "interactions df2 = Inr df3" "time_features df3 = Inr out"
    by (auto elim!: create_lag_features_Inr)
  let ?n = "lag_name ''DENGUE_CASES'' l"
  let ?s = "weather_lags weather_vars s"
  from assms(4) have "?n \<in> set (lag_cols ''DENGUE_CASES'')"
    by (simp add: lag_cols_def)
  from feature_cols_disjoint(2)[OF this] have n:
    "?n \<notin> set (concat (map roll_cols weather_vars))" "?n \<notin> set dengue_roll_cols"
    "?n \<notin> set [''TEMP_RANGE'', ''RAIN_TEMP_INTERACTION'', ''HUMIDITY_TEMP_INTERACTION'']"
    "?n \<notin> set [''WEEK_OF_YEAR'', ''QUARTER'', ''IS_RAINY_SEASON'']"
    by blast+
  from weather_not_feature(2) feature_cols_parts(3)
  have "''DENGUE CASES'' \<notin> set (concat (map lag_cols weather_vars))" by blast
  then have c: "map_of ?s ''DENGUE CASES'' = Some c"
    using assms(3) by (simp add: weather_lags_other)
  then have "''DENGUE CASES'' \<in> set (columns ?s)" by (simp add: in_columns_iff)
  then have dl: "dengue_lags ?s = lag_loop ''DENGUE CASES'' ''DENGUE_CASES'' lag_periods ?s"
    by (simp add: dengue_lags_def)
  have "map_of out ?n = map_of df3 ?n" using st(4) n(4) by (rule time_features_Inr(1))
  also have "\<dots> = map_of df2 ?n" using st(3) n(3) by (rule interactions_Inr(1))
  also have "\<dots> = map_of df1 ?n" using st(2) n(2) by (rule dengue_rolling_other)
  also have "\<dots> = map_of (dengue_lags ?s) ?n"
    using st(1) n(1) by (rule weather_rolling_other)
  also have "\<dots> = Some (shift_col l c)"
    unfolding dl using c dengue_lag_cols_distinct(2,1) assms(4) by (rule lag_loop_value)
  finally show ?thesis .
qed

lemma builder_weather_roll:
  assumes "create_lag_features df = Inr out" "sort_values ''DATE'' df = Inr s"
    and "v \<in> set weather_vars" "map_of s v = Some c" "w \<in> set rolling_windows"
  shows "\<exists>xs. c = Numeric xs
           \<and> map_of out (roll_mean_name v w) = Some (Numeric (rolling_mean w 1 xs))
           \<and> map_of out (roll_std_name v w) = Some (Numeric (rolling_std w 1 xs))"
proof -
  from assms(1,2) obtain df1 df2 df3 where
    st: "weather_rolling weather_vars (dengue_lags (weather_lags weather_vars s)) = Inr df1"
    "dengue_rolling df1 = Inr df2" "interactions df2 = Inr df3" "time_features df3 = Inr out"
    by (auto elim!: create_lag_features_Inr)
  from weather_not_feature(1)[OF assms(3)] feature_cols_parts(3,4)
  have "v \<notin> set (concat (map lag_cols weather_vars))" "v \<notin> set (lag_cols ''DENGUE_CASES'')"
    by blast+
  then have "map_of (dengue_lags (weather_lags weather_vars s)) v = Some c"
    using assms(4) by (simp add: dengue_lags_other weather_lags_other)
  from weather_rolling_value[OF st(1) feature_cols_parts(2) weather_base_disjoint(2) assms(3)
      this assms(5)]
  obtain xs where x: "c = Numeric xs"
    "map_of df1 (roll_mean_name v w) = Some (Numeric (rolling_mean w 1 xs))"
    "map_of df1 (roll_std_name v w) = Some (Numeric (rolling_std w 1 xs))"
    by blast
  have later: "map_of out n = map_of df1 n" if "n \<in> set (concat (map roll_cols weather_vars))" for n
  proof -
    from feature_cols_disjoint(3)[OF that] have n: "n \<notin> set dengue_roll_cols"
      "n \<notin> set [''TEMP_RANGE'', ''RAIN_TEMP_INTERACTION'', ''HUMIDITY_TEMP_INTERACTION'']"
      "n \<notin> set [''WEEK_OF_YEAR'', ''QUARTER'', ''IS_RAINY_SEASON'']"
      by blast+
    have "map_of out n = map_of df3 n" using st(4) n(3) by (rule time_features_Inr(1))
    also have "\<dots> = map_of df2 n" using st(3) n(2) by (rule interactions_Inr(1))
    also have "\<dots> = map_of df1 n" using st(2) n(1) by (rule dengue_rolling_other)
    finally show ?thesis .
  qed
  from assms(3,5) have "roll_mean_name v w \<in> set (concat (map roll_cols weather_vars))"
    "roll_std_name v w \<in> set (concat (map roll_cols weather_vars))"
    by (auto simp: roll_cols_def)
  with later x show ?thesis by simp
qed



subsection \<open>Rolling windows\<close>

lemma window_rows_eq:
  assumes "i < length xs"
  shows "window_rows w xs i = map ((!) xs) [Suc i - w..<Suc i]"
proof (rule nth_equalityI)
  have len: "length (window_rows w xs i) = Suc i - (Suc i - w)"
    using assms unfolding window_rows_def length_take length_drop by arith
  then show "length (window_rows w xs i) = length (map ((!) xs) [Suc i - w..<Suc i])"
    by (simp only: length_map length_upt)
next
  fix j assume j: "j < length (window_rows w xs i)"
  have len: "length (window_rows w xs i) = Suc i - (Suc i - w)"
    using assms unfolding window_rows_def length_take length_drop by arith
  with j have j': "j < Suc i - (Suc i - w)" by simp
  then have "window_rows w xs i ! j = xs ! (Suc i - w + j)"
    using assms unfolding window_rows_def by simp
  moreover from j' have "map ((!) xs) [Suc i - w..<Suc i] ! j = xs ! (Suc i - w + j)"
    by (simp del: upt_Suc)
  ultimately show "window_rows w xs i ! j = map ((!) xs) [Suc i - w..<Suc i] ! j"
    by simp
qed

lemma window_rows_subset: "set (window_rows w xs i) \<subseteq> set xs"
  unfolding window_rows_def by (meson order_trans set_drop_subset set_take_subset)

lemma map_filter_id_present: "None \<notin> set cells \<Longrightarrow> List.map_filter id cells = map the cells"
proof (induction cells)
  case Nil
  then show ?case by simp
next
  case (Cons a cells)
  then show ?case by (cases a) simp_all
qed

lemma map_filter_id_missing: "\<forall>c\<in>set cells. c = None \<Longrightarrow> List.map_filter id cells = []"
  by (induction cells) simp_all

lemma rolling_mean_nth:
  assumes "i < length xs" and "None \<notin> set xs \<or> (\<forall>x\<in>set xs. x = None)"
  shows "rolling_mean w 1 xs ! i = arithmetic_mean (window_rows w xs i)"
proof -
  let ?cells = "window_rows w xs i"
  from assms(1) have nth: "rolling_mean w 1 xs ! i =
      (let obs = window_obs w xs i
       in if 1 \<le> length obs \<and> 0 < length obs then Some (mean obs) else None)"
    by (simp add: rolling_mean_def)
  from assms(2) show ?thesis
  proof
    assume "None \<notin> set xs"
    with window_rows_subset[of w xs i] have p: "None \<notin> set ?cells" by blast
    then have "window_obs w xs i = map the ?cells"
      by (simp add: window_obs_def map_filter_id_present)
    with p nth show ?thesis
      by (cases ?cells) (simp_all add: arithmetic_mean_def mean_def Let_def)
  next
    assume "\<forall>x\<in>set xs. x = None"
    with window_rows_subset[of w xs i] have m: "\<forall>c\<in>set ?cells. c = None" by blast
    then have "window_obs w xs i = []"
      by (simp add: window_obs_def map_filter_id_missing)
    moreover from m have "?cells = [] \<or> None \<in> set ?cells"
      by (cases ?cells) auto
    ultimately show ?thesis using nth
      by (auto simp: arithmetic_mean_def Let_def)
  qed
qed

lemma length_map_filter_le: "length (List.map_filter f xs) \<le> length xs"
  by (induction xs) (auto split: option.splits)

lemma rolling_std_first:
  assumes "0 < length xs"
  shows "rolling_std w p xs ! 0 = None"
proof -
  have "length (window_rows w xs 0) \<le> 1"
    by (simp add: window_rows_def)
  with length_map_filter_le[of id "window_rows w xs 0"]
  have "length (window_obs w xs 0) \<le> 1"
    by (simp add: window_obs_def)
  moreover from assms have "rolling_std w p xs ! 0 =
      (let obs = window_obs w xs 0
       in if p \<le> length obs \<and> 1 < length obs then Some (sample_std obs) else None)"
    by (simp add: rolling_std_def upt_conv_Cons)
  ultimately show ?thesis by (simp add: Let_def)
qed

subsection \<open>The weather columns of a cleaned dataset\<close>

lemma weather_vars_cases:
  "v \<in> set weather_vars \<longleftrightarrow> v = ''RAINFALL'' \<or> v \<in> set temp_humidity_cols"
  by (auto simp: weather_vars_def temp_humidity_cols_def)

lemma settled_clamp_col:
  assumes "clamp_col c = Numeric ys"
    and "\<And>xs. c = Numeric xs \<Longrightarrow> None \<notin> set xs \<or> (\<forall>x\<in>set xs. x = None)"
  shows "None \<notin> set ys \<or> (\<forall>y\<in>set ys. y = None)"
proof (cases c)
  case (Numeric xs)
  with assms(1) have "ys = clamp_column xs" by simp
  with clamp_column_settled[OF assms(2)[OF Numeric]] show ?thesis by simp
qed (use assms(1) in simp_all)

lemma cleaned_weather_settled:
  assumes "clean_data raw = Inr df" "v \<in> set weather_vars" "map_of df v = Some (Numeric ys)"
  shows "None \<notin> set ys \<or> (\<forall>y\<in>set ys. y = None)"
proof -
  from assms(1) obtain df2 df3 where s: "date_and_sort raw = Inr df2"
    by (rule clean_data_Inr)
  from clean_data_present[OF assms(1) s assms(3)] obtain c0 where c0: "map_of df2 v = Some c0" ..
  from assms(2) have "v = ''RAINFALL'' \<or> v \<in> set temp_humidity_cols"
    by (simp add: weather_vars_cases)
  then show ?thesis
  proof
    assume v: "v = ''RAINFALL''"
    from clean_data_rainfall[OF assms(1) s c0[unfolded v]] assms(3) v obtain c' where
      c': "fillna0_col c0 = Inr c'" "clamp_col c' = Numeric ys" by auto
    from c'(1) have nm: "None \<notin> set xs \<or> (\<forall>x\<in>set xs. x = None)" if "c' = Numeric xs" for xs
      using that by (cases c0) (auto simp: fillna_no_missing)
    from c'(2) nm show ?thesis by (rule settled_clamp_col)
  next
    assume v: "v \<in> set temp_humidity_cols"
    from clean_data_temp[OF assms(1) s v] c0 assms(3)
    have c: "clamp_col (bfill_col (ffill_col c0)) = Numeric ys" by simp
    have "None \<notin> set xs \<or> (\<forall>x\<in>set xs. x = None)" if "bfill_col (ffill_col c0) = Numeric xs" for xs
      using that bfill_ffill_settled by (cases c0) auto
    with c show ?thesis by (rule settled_clamp_col)
  qed
qed

lemma sort_values_numeric:
  assumes "sort_values key df = Inr s" "all_len k df" "map_of s v = Some (Numeric xs)"
  obtains ys where "map_of df v = Some (Numeric ys)" "set xs \<subseteq> set ys" "length xs = length ys"
proof -
  from assms(1) obtain c idx where c: "map_of df key = Some c" "sort_indexer c = Inr idx"
    "s = map (\<lambda>nc. (fst nc, take_rows idx (snd nc))) df"
    by (rule sort_values_Inr)
  from c(2) have idx: "set idx = {0..<col_len c}"
    by (cases c) (auto simp: set_nargsort)
  from c(2) have lidx: "length idx = col_len c"
    by (cases c) (auto simp: length_nargsort)
  from all_len_map_of[OF assms(2) c(1)] have k: "col_len c = k" .
  from assms(3) c(3) obtain c0 where c0: "map_of df v = Some c0" "take_rows idx c0 = Numeric xs"
    by (auto simp: map_of_take_all)
  then obtain ys where ys: "c0 = Numeric ys" "xs = map ((!) ys) idx"
    by (cases c0) auto
  from all_len_map_of[OF assms(2) c0(1)] ys have "length ys = k" by simp
  with ys idx lidx k have "set xs \<subseteq> set ys" "length xs = length ys"
    by auto
  with c0(1) ys(1) show ?thesis by (intro that) auto
qed

lemma builder_weather_settled:
  assumes "wf_frame raw" "clean_data raw = Inr df" "create_lag_features df = Inr out"
    and "v \<in> set weather_vars" "map_of out v = Some (Numeric xs)"
  shows "None \<notin> set xs \<or> (\<forall>x\<in>set xs. x = None)"
proof -
  from assms(3) obtain s where s: "sort_values ''DATE'' df = Inr s"
    by (rule create_lag_features_Inr)
  from builder_untouched[OF assms(3) s weather_not_feature(1)[OF assms(4)]] assms(5)
  have sv: "map_of s v = Some (Numeric xs)" by simp
  from clean_data_rows(2)[OF assms(1,2)] have "all_len (nrows df) df"
    by (rule wf_frame_all_len)
  from sort_values_numeric[OF s this sv] obtain ys where
    ys: "map_of df v = Some (Numeric ys)" "set xs \<subseteq> set ys" .
  from cleaned_weather_settled[OF assms(2,4) ys(1)] ys(2) show ?thesis by blast
qed

subsection \<open>Running the feature builder on the rainfall example\<close>

lemmas builder_defs =
  create_lag_features_def sort_values_def get_col_def nargsort_def set_col_def columns_def
  weather_vars_def lag_periods_def rolling_windows_def dengue_lags_def dengue_rolling_def
  lag_name_def roll_mean_name_def roll_std_name_def string_of_nat_lags shift_def
  rolling_mean_def rolling_std_def window_obs_def window_rows_def
  interactions_def interaction_def time_features_def
  iso_week_def isoweek1monday_def ymd2ord_def days_before_year_def days_before_month_def
  days_in_month_def is_leap_def quarter_def rainy_months_def

lemma wf_rain_raw: "wf_frame rain_raw"
  by (simp add: wf_frame_def all_len_def columns_def rain_raw_def)


lemma clean_rain_raw: "clean_data rain_raw = Inr rain_example"
  by (simp add: rain_raw_def rain_example_def cleaner_defs)

lemma create_rain_example: "create_lag_features rain_example = Inr rain_features"
proof -
  have "\<exists>out. create_lag_features rain_example = Inr out"
    by (simp add: rain_example_def builder_defs)
  then show ?thesis
    by (auto simp: rain_features_def)
qed

lemma sort_rain_example: "sort_values ''DATE'' rain_example = Inr rain_example"
  by (simp add: rain_example_def sort_values_def get_col_def nargsort_def)

lemma rain_features_rainfall:
  "map_of rain_features ''RAINFALL'' =
     Some (Numeric [Some 0, Some 5, Some 0, Some 0, Some 10, Some 0, Some 0, Some 0,
                    Some 0, Some 20])"
proof -
  have "''RAINFALL'' \<in> set weather_vars" by (simp add: weather_vars_def)
  from builder_untouched[OF create_rain_example sort_rain_example weather_not_feature(1)[OF this]]
  show ?thesis by (simp add: rain_example_def)
qed

lemma lag_sources_cases:
  assumes "(X, P) \<in> set lag_sources"
  shows "(X \<in> set weather_vars \<and> P = X) \<or> (X = ''DENGUE CASES'' \<and> P = ''DENGUE_CASES'')"
  using assms by (auto simp: lag_sources_def)

lemma builder_lag:
  assumes "create_lag_features df = Inr out" "(X, P) \<in> set lag_sources"
    and "n \<in> set lag_periods" "map_of out X = Some c"
  shows "map_of out (lag_name P n) = Some (shift_col n c)"
proof -
  from assms(1) obtain s where s: "sort_values ''DATE'' df = Inr s"
    by (rule create_lag_features_Inr)
  from lag_sources_cases[OF assms(2)] show ?thesis
  proof (elim disjE conjE)
    assume X: "X \<in> set weather_vars" and P: "P = X"
    from builder_untouched[OF assms(1) s weather_not_feature(1)[OF X]] assms(4)
    have "map_of s X = Some c" by simp
    from builder_weather_lag[OF assms(1) s X this assms(3)] P show ?thesis by simp
  next
    assume X: "X = ''DENGUE CASES''" and P: "P = ''DENGUE_CASES''"
    from builder_untouched[OF assms(1) s weather_not_feature(2)] assms(4) X
    have "map_of s ''DENGUE CASES'' = Some c" by simp
    from builder_dengue_lag[OF assms(1) s this assms(3)] P show ?thesis by simp
  qed
qed

lemma builder_roll:
  assumes "create_lag_features df = Inr out" "X \<in> set weather_vars"
    and "w \<in> set rolling_windows" "map_of out X = Some c"
  shows "\<exists>xs. c = Numeric xs
           \<and> map_of out (roll_mean_name X w) = Some (Numeric (rolling_mean w 1 xs))
           \<and> map_of out (roll_std_name X w) = Some (Numeric (rolling_std w 1 xs))"
proof -
  from assms(1) obtain s where s: "sort_values ''DATE'' df = Inr s"
    by (rule create_lag_features_Inr)
  from builder_untouched[OF assms(1) s weather_not_feature(1)[OF assms(2)]] assms(4)
  have "map_of s X = Some c" by simp
  from builder_weather_roll[OF assms(1) s assms(2) this assms(3)] show ?thesis .
qed

section \<open>The claims about the cleaner\<close>



text \<open>
  C5. After cleaning, no numeric column other than YEAR, MONTH and DAY holds a negative
  value in any row; and the dataset with TMAX = [30, 28, -5, 32] is cleaned to
  TMAX = [30, 28, 0, 32].
\<close>

theorem cleaner_no_negative_values:
  assumes "clean_data raw = Inr out"
    and "(n, Numeric xs) \<in> set out"
    and "n \<notin> {''YEAR'', ''MONTH'', ''DAY''}"
  shows "(\<forall>v. Some v \<in> set xs \<longrightarrow> 0 \<le> v) \<and> clean_data tmax_example = Inr tmax_cleaned"
proof -
  from assms have "filter is_negative xs = []"
    using clean_data_nonnegative[of raw out n xs] by simp
  then have "\<forall>v. Some v \<in> set xs \<longrightarrow> 0 \<le> v"
    by (force simp: filter_empty_conv is_negative_def)
  with clean_tmax_example show ?thesis by simp
qed

theorem cleaner_no_negative_values_witness:
  "clean_data raw_example = Inr cleaned_example
   \<and> (''TMAX'', Numeric [Some 30, Some 28, Some 0, Some 32]) \<in> set cleaned_example
   \<and> ''TMAX'' \<notin> {''YEAR'', ''MONTH'', ''DAY''}
   \<and> Some 28 \<in> set [Some 30, Some 28, Some 0, Some (32::real)]
   \<and> (0::real) \<le> 28
   \<and> clean_data tmax_example = Inr tmax_cleaned"
proof -
  have m: "(''TMAX'', Numeric [Some 30, Some 28, Some 0, Some 32]) \<in> set cleaned_example"
    by (simp add: cleaned_example_def)
  have n: "''TMAX'' \<notin> {''YEAR'', ''MONTH'', ''DAY''}"
    by simp
  have v: "Some 28 \<in> set [Some 30, Some 28, Some 0, Some (32::real)]"
    by simp
  from cleaner_no_negative_values [OF clean_raw_example m n] v
  have "(0::real) \<le> 28" and "clean_data tmax_example = Inr tmax_cleaned"
    by blast+
  with clean_raw_example m n v show ?thesis by blast
qed

text \<open>
  C6. After cleaning, the RAINFALL column and the case-count column have no missing
  value, and they are still there when the input had them. With the rows in the
  cleaner's sorted order, the case counts are the forward fill of the counts (negative
  counts set to 0) with the cells still missing set to 0: every row holds the nearest
  value at or before it, or 0 when there is none. A missing RAINFALL cell becomes 0. And
  the case counts [NaN, NaN, 3, NaN, 5] are cleaned to [0, 0, 3, 3, 5].
\<close>

theorem cleaner_fills_rainfall_and_cases:
  assumes "clean_data raw = Inr out" and "date_and_sort raw = Inr sorted_raw"
  shows "(\<forall>c. map_of out ''RAINFALL'' = Some c \<longrightarrow> missing_count c = 0)
       \<and> (\<forall>c. map_of out ''DENGUE CASES'' = Some c \<longrightarrow> missing_count c = 0)
       \<and> (''RAINFALL'' \<in> set (columns raw) \<longrightarrow> ''RAINFALL'' \<in> set (columns out))
       \<and> (''DENGUE CASES'' \<in> set (columns raw) \<longrightarrow> ''DENGUE CASES'' \<in> set (columns out))
       \<and> (\<forall>xs. map_of sorted_raw ''DENGUE CASES'' = Some (Numeric xs) \<longrightarrow>
             map_of out ''DENGUE CASES'' = Some (Numeric (fillna 0 (ffill (clamp_column xs))))
             \<and> (\<forall>i<length xs. fillna 0 (ffill (clamp_column xs)) ! i =
                   (case nearest_preceding (clamp_column xs) i of
                      None \<Rightarrow> Some 0 | Some v \<Rightarrow> Some v)))
       \<and> (\<forall>xs. map_of sorted_raw ''RAINFALL'' = Some (Numeric xs) \<longrightarrow>
             map_of out ''RAINFALL'' = Some (Numeric (fillna 0 (clamp_column xs)))
             \<and> (\<forall>i<length xs. xs ! i = None \<longrightarrow> fillna 0 (clamp_column xs) ! i = Some 0))
       \<and> clean_data dengue_example = Inr dengue_cleaned"
proof (intro conjI allI impI)
  fix c assume "map_of out ''RAINFALL'' = Some c"
  with assms(1) show "missing_count c = 0"
    using clean_data_no_missing[of raw out "''RAINFALL''" c] by simp
next
  fix c assume "map_of out ''DENGUE CASES'' = Some c"
  with assms(1) show "missing_count c = 0"
    using clean_data_no_missing[of raw out "''DENGUE CASES''" c] by simp
next
  assume "''RAINFALL'' \<in> set (columns raw)"
  moreover have "''RAINFALL'' \<in> set col_order" by (simp add: col_order_def)
  ultimately show "''RAINFALL'' \<in> set (columns out)"
    using clean_data_keeps[OF assms(1)] by blast
next
  assume "''DENGUE CASES'' \<in> set (columns raw)"
  moreover have "''DENGUE CASES'' \<in> set col_order" by (simp add: col_order_def)
  ultimately show "''DENGUE CASES'' \<in> set (columns out)"
    using clean_data_keeps[OF assms(1)] by blast
next
  fix xs assume "map_of sorted_raw ''DENGUE CASES'' = Some (Numeric xs)"
  with assms show
    "map_of out ''DENGUE CASES'' = Some (Numeric (fillna 0 (ffill (clamp_column xs))))"
    by (rule clean_data_dengue_numeric)
next
  fix xs i assume "i < length (xs :: real option list)"
  then show "fillna 0 (ffill (clamp_column xs)) ! i =
      (case nearest_preceding (clamp_column xs) i of None \<Rightarrow> Some 0 | Some v \<Rightarrow> Some v)"
    using filled_cases_nth[of i "clamp_column xs"] by (simp add: length_clamp_column)
next
  fix xs assume "map_of sorted_raw ''RAINFALL'' = Some (Numeric xs)"
  with assms show "map_of out ''RAINFALL'' = Some (Numeric (fillna 0 (clamp_column xs)))"
    by (rule clean_data_rainfall_numeric)
next
  fix xs i assume "i < length (xs :: real option list)" "xs ! i = None"
  then show "fillna 0 (clamp_column xs) ! i = Some 0"
    by (rule filled_rainfall_nth)
next
  show "clean_data dengue_example = Inr dengue_cleaned"
    by (rule clean_dengue_example)
qed

theorem cleaner_fills_rainfall_and_cases_witness:
  "clean_data dengue_example = Inr dengue_cleaned
   \<and> date_and_sort dengue_example = Inr dengue_sorted
   \<and> map_of dengue_sorted ''DENGUE CASES'' = Some (Numeric [None, None, Some 3, None, Some 5])
   \<and> map_of dengue_cleaned ''DENGUE CASES'' =
       Some (Numeric (fillna 0 (ffill (clamp_column [None, None, Some 3, None, Some 5]))))
   \<and> map_of dengue_cleaned ''RAINFALL'' =
       Some (Numeric [Some 4, Some 0, Some 2, Some 0, Some 0])
   \<and> missing_count (Numeric [Some 4, Some 0, Some 2, Some 0, Some 0]) = 0"
proof -
  have m: "map_of dengue_sorted ''DENGUE CASES'' = Some (Numeric [None, None, Some 3, None, Some 5])"
    by (simp add: dengue_sorted_def)
  have r: "map_of dengue_cleaned ''RAINFALL'' =
      Some (Numeric [Some 4, Some 0, Some 2, Some 0, Some 0])"
    by (simp add: dengue_cleaned_def)
  from cleaner_fills_rainfall_and_cases [OF clean_dengue_example sort_dengue_example] m r
  have "map_of dengue_cleaned ''DENGUE CASES'' =
       Some (Numeric (fillna 0 (ffill (clamp_column [None, None, Some 3, None, Some 5]))))"
    and "missing_count (Numeric [Some 4, Some 0, Some 2, Some 0, Some 0]) = 0"
    by blast+
  with clean_dengue_example sort_dengue_example m r show ?thesis by blast
qed

text \<open>
  C7. For every input dataset, the rows the cleaner writes are sorted non-decreasing by
  the derived DATE: along the DATE column no date is followed by an earlier one, and the
  rows whose date could not be built come after all dated rows.
\<close>

theorem cleaner_output_sorted_by_date:
  "clean_data raw = Inr out \<Longrightarrow> sorted_by_date out"
  by (rule clean_data_sorted)

theorem cleaner_output_sorted_by_date_witness:
  "clean_data raw_example = Inr cleaned_example \<and> sorted_by_date cleaned_example"
  using cleaner_output_sorted_by_date [OF clean_raw_example] clean_raw_example by simp

section \<open>The claims about the feature builder\<close>

text \<open>
  C3. For a cleaned dataset, every weather variable X in it, every window w of 7 or 14
  rows and every row i of the feature dataset (which is in DATE order), the rolling mean
  column of X for w holds at row i the arithmetic mean of X over rows max(0, i - w + 1)
  to i. And for RAINFALL = [0, 5, 0, 0, 10, 0, 0, 0, 0, 20] the column
  \<^verbatim>\<open>RAINFALL_ROLL_MEAN_7D\<close> holds (0 + 10 + 0 + 0 + 0 + 0 + 20) / 7 at row 9.
\<close>

theorem rolling_mean_is_window_mean:
  assumes "wf_frame raw" and "clean_data raw = Inr df" and "create_lag_features df = Inr out"
    and "X \<in> set weather_vars" and "w \<in> set rolling_windows"
    and "map_of out X = Some (Numeric xs)" and "i < length xs"
  shows "(\<exists>ms. map_of out (roll_mean_name X w) = Some (Numeric ms) \<and> length ms = length xs
            \<and> ms ! i = arithmetic_mean (map ((!) xs) [Suc i - w..<Suc i]))
       \<and> (clean_data rain_raw = Inr rain_example
          \<and> create_lag_features rain_example = Inr rain_features
          \<and> map_of rain_features ''RAINFALL'' =
              Some (Numeric [Some 0, Some 5, Some 0, Some 0, Some 10, Some 0, Some 0, Some 0,
                             Some 0, Some 20])
          \<and> (\<exists>ms. map_of rain_features ''RAINFALL_ROLL_MEAN_7D'' = Some (Numeric ms)
                \<and> ms ! 9 = Some ((0 + 10 + 0 + 0 + 0 + 0 + 20) / 7)))"
proof (intro conjI)
  from builder_roll[OF assms(3,4,5,6)]
  have m: "map_of out (roll_mean_name X w) = Some (Numeric (rolling_mean w 1 xs))"
    by simp
  have "None \<notin> set xs \<or> (\<forall>x\<in>set xs. x = None)"
    using assms(1,2,3,4,6) by (rule builder_weather_settled)
  with assms(7) have "rolling_mean w 1 xs ! i = arithmetic_mean (window_rows w xs i)"
    by (rule rolling_mean_nth)
  with assms(7) have "rolling_mean w 1 xs ! i = arithmetic_mean (map ((!) xs) [Suc i - w..<Suc i])"
    by (simp only: window_rows_eq)
  with m show "\<exists>ms. map_of out (roll_mean_name X w) = Some (Numeric ms) \<and> length ms = length xs
            \<and> ms ! i = arithmetic_mean (map ((!) xs) [Suc i - w..<Suc i])"
    by (simp add: length_rolling_mean)
next
  show "clean_data rain_raw = Inr rain_example" by (rule clean_rain_raw)
next
  show "create_lag_features rain_example = Inr rain_features" by (rule create_rain_example)
next
  show "map_of rain_features ''RAINFALL'' =
      Some (Numeric [Some 0, Some 5, Some 0, Some 0, Some 10, Some 0, Some 0, Some 0,
                     Some 0, Some 20])"
    by (rule rain_features_rainfall)
next
  have X: "''RAINFALL'' \<in> set weather_vars" and w: "7 \<in> set rolling_windows"
    by (simp_all add: weather_vars_def rolling_windows_def)
  from builder_roll[OF create_rain_example X w rain_features_rainfall]
  have "map_of rain_features (roll_mean_name ''RAINFALL'' 7) =
      Some (Numeric (rolling_mean 7 1 [Some 0, Some 5, Some 0, Some 0, Some 10, Some 0, Some 0,
                                       Some 0, Some 0, Some 20]))"
    by simp
  moreover have "roll_mean_name ''RAINFALL'' 7 = ''RAINFALL_ROLL_MEAN_7D''"
    by (simp add: roll_mean_name_def string_of_nat_lags)
  moreover have "rolling_mean 7 1 [Some 0, Some 5, Some 0, Some 0, Some 10, Some 0, Some 0,
                                   Some 0, Some 0, Some 20] ! 9
      = Some ((0 + 10 + 0 + 0 + 0 + 0 + 20) / 7)"
    by (simp add: rolling_mean_def window_obs_def window_rows_def mean_def)
  ultimately show "\<exists>ms. map_of rain_features ''RAINFALL_ROLL_MEAN_7D'' = Some (Numeric ms)
                \<and> ms ! 9 = Some ((0 + 10 + 0 + 0 + 0 + 0 + 20) / 7)"
    by simp
qed

theorem rolling_mean_is_window_mean_witness:
  "wf_frame rain_raw \<and> clean_data rain_raw = Inr rain_example
   \<and> create_lag_features rain_example = Inr rain_features
   \<and> ''RAINFALL'' \<in> set weather_vars \<and> 7 \<in> set rolling_windows
   \<and> map_of rain_features ''RAINFALL'' =
       Some (Numeric [Some 0, Some 5, Some 0, Some 0, Some 10, Some 0, Some 0, Some 0,
                      Some 0, Some 20])
   \<and> (\<exists>ms. map_of rain_features (roll_mean_name ''RAINFALL'' 7) = Some (Numeric ms)
         \<and> length ms = 10
         \<and> ms ! 9 = arithmetic_mean [Some 0, Some 10, Some 0, Some 0, Some 0, Some 0, Some 20])"
proof -
  have X: "''RAINFALL'' \<in> set weather_vars" and w: "7 \<in> set rolling_windows"
    by (simp_all add: weather_vars_def rolling_windows_def)
  have i: "9 < length [Some (0::real), Some 5, Some 0, Some 0, Some 10, Some 0, Some 0, Some 0,
                       Some 0, Some 20]"
    by simp
  have r: "map ((!) [Some (0::real), Some 5, Some 0, Some 0, Some 10, Some 0, Some 0, Some 0,
                     Some 0, Some 20]) [Suc 9 - 7..<Suc 9]
      = [Some 0, Some 10, Some 0, Some 0, Some 0, Some 0, Some 20]"
    by (simp add: upt_rec)
  from rolling_mean_is_window_mean [OF wf_rain_raw clean_rain_raw create_rain_example X w
      rain_features_rainfall i]
  have "\<exists>ms. map_of rain_features (roll_mean_name ''RAINFALL'' 7) = Some (Numeric ms)
         \<and> length ms = 10
         \<and> ms ! 9 = arithmetic_mean [Some 0, Some 10, Some 0, Some 0, Some 0, Some 0, Some 20]"
    unfolding r by (simp add: numeral_eq_Suc)
  with wf_rain_raw clean_rain_raw create_rain_example X w rain_features_rainfall
  show ?thesis by blast
qed

text \<open>
  C4. For every variable X among RAINFALL, TMAX, TMIN, Ave. Temp, RH and DENGUE CASES that
  is in the dataset and every lag n of 7, 14 or 21 rows, the lag column of X for n holds
  at row i of the feature dataset (which is in DATE order) the value of X at row i - n
  when i \<ge> n, and is missing when i < n. This holds for every input the feature builder
  accepts, cleaned or not.
\<close>

theorem lag_column_is_earlier_row:
  assumes "create_lag_features df = Inr out"
    and "(X, P) \<in> set lag_sources" and "n \<in> set lag_periods"
    and "map_of out X = Some (Numeric xs)" and "i < length xs"
  shows "\<exists>ls. map_of out (lag_name P n) = Some (Numeric ls) \<and> length ls = length xs
           \<and> ls ! i = (if n \<le> i then xs ! (i - n) else None)"
proof -
  from builder_lag[OF assms(1-4)]
  have "map_of out (lag_name P n) = Some (Numeric (shift n xs))" by simp
  moreover from assms(5) have "shift n xs ! i = (if n \<le> i then xs ! (i - n) else None)"
    by (auto simp: shift_nth)
  ultimately show ?thesis by (simp add: length_shift)
qed

theorem lag_column_is_earlier_row_witness:
  "create_lag_features rain_example = Inr rain_features
   \<and> (''RAINFALL'', ''RAINFALL'') \<in> set lag_sources \<and> 7 \<in> set lag_periods
   \<and> map_of rain_features ''RAINFALL'' =
       Some (Numeric [Some 0, Some 5, Some 0, Some 0, Some 10, Some 0, Some 0, Some 0,
                      Some 0, Some 20])
   \<and> (\<exists>ls. map_of rain_features (lag_name ''RAINFALL'' 7) = Some (Numeric ls)
         \<and> length ls = 10 \<and> ls ! 8 = Some 5)
   \<and> (\<exists>ls. map_of rain_features (lag_name ''RAINFALL'' 7) = Some (Numeric ls)
         \<and> length ls = 10 \<and> ls ! 6 = None)"
proof -
  have X: "(''RAINFALL'', ''RAINFALL'') \<in> set lag_sources" and n: "7 \<in> set lag_periods"
    by (simp_all add: lag_sources_def weather_vars_def lag_periods_def)
  have i: "8 < length [Some (0::real), Some 5, Some 0, Some 0, Some 10, Some 0, Some 0, Some 0,
                       Some 0, Some 20]"
    and j: "6 < length [Some (0::real), Some 5, Some 0, Some 0, Some 10, Some 0, Some 0, Some 0,
                       Some 0, Some 20]"
    by simp_all
  from lag_column_is_earlier_row [OF create_rain_example X n rain_features_rainfall i]
  have a: "\<exists>ls. map_of rain_features (lag_name ''RAINFALL'' 7) = Some (Numeric ls)
         \<and> length ls = 10 \<and> ls ! 8 = Some 5"
    by (simp add: numeral_eq_Suc)
  from lag_column_is_earlier_row [OF create_rain_example X n rain_features_rainfall j]
  have b: "\<exists>ls. map_of rain_features (lag_name ''RAINFALL'' 7) = Some (Numeric ls)
         \<and> length ls = 10 \<and> ls ! 6 = None"
    by (simp add: numeral_eq_Suc)
  from a b create_rain_example X n rain_features_rainfall show ?thesis by blast
qed

text \<open>
  C10. For a dataset with at least one row and every weather variable X in it, the
  rolling standard deviation columns of X (windows of 7 and 14 rows) are missing at row
  0: the window of row 0 holds one observation at most, and the sample standard deviation
  needs two, although the rolling computation asks for one observation only. This holds
  for every input the feature builder accepts, cleaned or not.
\<close>

theorem rolling_std_missing_at_first_row:
  assumes "create_lag_features df = Inr out"
    and "X \<in> set weather_vars" and "w \<in> set rolling_windows"
    and "map_of out X = Some c" and "0 < col_len c"
  shows "\<exists>ss. map_of out (roll_std_name X w) = Some (Numeric ss) \<and> length ss = col_len c
           \<and> ss ! 0 = None"
proof -
  from builder_roll[OF assms(1-4)] obtain xs where
    x: "c = Numeric xs" "map_of out (roll_std_name X w) = Some (Numeric (rolling_std w 1 xs))"
    by blast
  with assms(5) have "rolling_std w 1 xs ! 0 = None"
    by (simp add: rolling_std_first)
  with x show ?thesis by (simp add: length_rolling_std)
qed

theorem rolling_std_missing_at_first_row_witness:
  "create_lag_features rain_example = Inr rain_features
   \<and> ''RAINFALL'' \<in> set weather_vars \<and> 14 \<in> set rolling_windows
   \<and> map_of rain_features ''RAINFALL'' =
       Some (Numeric [Some 0, Some 5, Some 0, Some 0, Some 10, Some 0, Some 0, Some 0,
                      Some 0, Some 20])
   \<and> (\<exists>ss. map_of rain_features (roll_std_name ''RAINFALL'' 14) = Some (Numeric ss)
         \<and> length ss = 10 \<and> ss ! 0 = None)"
proof -
  have X: "''RAINFALL'' \<in> set weather_vars" and w: "14 \<in> set rolling_windows"
    by (simp_all add: weather_vars_def rolling_windows_def)
  have l: "0 < col_len (Numeric [Some 0, Some 5, Some 0, Some 0, Some 10, Some 0, Some 0,
                                 Some 0, Some 0, Some 20])"
    by simp
  from rolling_std_missing_at_first_row [OF create_rain_example X w rain_features_rainfall l]
  have "\<exists>ss. map_of rain_features (roll_std_name ''RAINFALL'' 14) = Some (Numeric ss)
         \<and> length ss = 10 \<and> ss ! 0 = None"
    by (simp add: numeral_eq_Suc)
  with create_rain_example X w rain_features_rainfall show ?thesis by blast
qed

section \<open>The claim about both transformation stages\<close>



end
